theory Spec2Isabelle
  imports Main "HOL-Library.AList"
begin

section \<open>Task records and exceptions\<close>

text \<open>
  One row of the input file, keyed by \<open>CSV_HEADER\<close> of \<open>toolkit/utils.py\<close>:
  \<open>['domain', 'repository', 'format', 'namespace', 'package', 'upstream', 'publish']\<close>.
  A task file holds the CSV serialisation of one such row (\<open>csv.DictWriter.writerow\<close>), and
  \<open>WorkspaceManager.reader\<close> parses it back with the same field names, so the content of a
  task file is modelled as the row it serialises.
\<close>

record row =
  domain :: string
  repository :: string
  format :: string
  namespace :: string
  package :: string
  upstream :: string
  publish :: string

text \<open>
  The Python exceptions the modelled code raises. All of them are subclasses of
  \<open>Exception\<close>; \<open>ShutilError\<close> is \<open>shutil.Error\<close>, \<open>Exception\<close> carries the message of a
  plain \<open>raise Exception(...)\<close>, \<open>OSError\<close> is an \<open>OSError\<close> of no more specific class,
  \<open>ClientError\<close> is whatever the remote client raises.
\<close>

datatype exn =
  FileExistsError
  | FileNotFoundError
  | NotADirectoryError
  | OSError string
  | ValueError string
  | ShutilError string
  | EOFError
  | Exception string
  | ClientError string

section \<open>The workspace: three folders of task files\<close>

text \<open>
  A folder is the list of its entries, file name and content; \<open>os.listdir\<close> returns the
  names in the order of the list. The files of a folder have plain names (no path
  separator), so for a task id \<open>os.path.join(folder, filename)\<close> names the entry \<open>filename\<close>
  of \<open>folder\<close>. The three folders are assumed to exist (see \<open>setup_workspace\<close> below for
  their creation).
\<close>

type_synonym folder = "(string \<times> row) list"

record workspace =
  todo_folder :: folder
  error_folder :: folder
  done_folder :: folder

datatype folder_name = TODO | ERROR | DONE

fun get_folder :: "workspace \<Rightarrow> folder_name \<Rightarrow> folder" where
  "get_folder ws TODO = todo_folder ws"
| "get_folder ws ERROR = error_folder ws"
| "get_folder ws DONE = done_folder ws"

fun set_folder :: "workspace \<Rightarrow> folder_name \<Rightarrow> folder \<Rightarrow> workspace" where
  "set_folder ws TODO d = ws\<lparr>todo_folder := d\<rparr>"
| "set_folder ws ERROR d = ws\<lparr>error_folder := d\<rparr>"
| "set_folder ws DONE d = ws\<lparr>done_folder := d\<rparr>"

definition os_path_exists :: "folder \<Rightarrow> string \<Rightarrow> bool" where
  "os_path_exists d filename = (map_of d filename \<noteq> None)"

definition os_listdir :: "folder \<Rightarrow> string list" where
  "os_listdir d = map fst d"

text \<open>
  \<open>shutil.move(src, dst)\<close> with \<open>dst\<close> an existing directory: the real destination is
  \<open>dst/basename(src)\<close>; if it exists, \<open>shutil.Error\<close> is raised; otherwise \<open>os.rename\<close>
  moves the file, and a missing source raises \<open>FileNotFoundError\<close> (from the rename's
  fallback copy, which opens the source first). Both checks come before anything is
  changed, so a raise leaves the file system as it was.
\<close>

definition shutil_move :: "workspace \<Rightarrow> folder_name \<Rightarrow> string \<Rightarrow> folder_name \<Rightarrow> exn + workspace" where
  "shutil_move ws src filename dst =
     (if os_path_exists (get_folder ws dst) filename
      then Inl (ShutilError ''Destination path already exists'')
      else (case map_of (get_folder ws src) filename of
              None \<Rightarrow> Inl FileNotFoundError
            | Some content \<Rightarrow>
                (let ws1 = set_folder ws src (AList.delete filename (get_folder ws src))
                 in Inr (set_folder ws1 dst (AList.update filename content (get_folder ws1 dst))))))"

text \<open>\<open>WorkspaceManager.move_to_done\<close>, \<open>move_to_error\<close>, \<open>move_to_retry\<close> and \<open>reader\<close>.\<close>

definition move_to_done :: "workspace \<Rightarrow> string \<Rightarrow> exn + workspace" where
  "move_to_done ws filename =
     (let source = (if \<not> os_path_exists (todo_folder ws) filename then ERROR else TODO)
      in shutil_move ws source filename DONE)"

definition move_to_error :: "workspace \<Rightarrow> string \<Rightarrow> exn + workspace" where
  "move_to_error ws filename =
     (if \<not> os_path_exists (error_folder ws) filename
      then shutil_move ws TODO filename ERROR
      else Inr ws)"

definition move_to_retry :: "workspace \<Rightarrow> string \<Rightarrow> exn + workspace" where
  "move_to_retry ws filename = shutil_move ws ERROR filename TODO"

definition reader :: "workspace \<Rightarrow> string \<Rightarrow> exn + row" where
  "reader ws filename =
     (let source = (if \<not> os_path_exists (todo_folder ws) filename then ERROR else TODO)
      in (case map_of (get_folder ws source) filename of
            None \<Rightarrow> Inl FileNotFoundError
          | Some content \<Rightarrow> Inr content))"

text \<open>
  The file system after a call: the new one when the call returned, the old one when it
  raised.
\<close>

definition state_after :: "workspace \<Rightarrow> exn + workspace \<Rightarrow> workspace" where
  "state_after ws r = (case r of Inl e \<Rightarrow> ws | Inr ws' \<Rightarrow> ws')"

text \<open>In how many of the three folders a task id has a file.\<close>

definition present :: "workspace \<Rightarrow> folder_name \<Rightarrow> string \<Rightarrow> bool" where
  "present ws d t = os_path_exists (get_folder ws d) t"

definition in_exactly_one :: "workspace \<Rightarrow> string \<Rightarrow> bool" where
  "in_exactly_one ws t = (length (filter (\<lambda>d. present ws d t) [TODO, ERROR, DONE]) = 1)"

section \<open>Populating the workspace\<close>

definition is_workspace_clean :: "workspace \<Rightarrow> bool" where
  "is_workspace_clean ws =
     (os_listdir (done_folder ws) \<noteq> []
      \<and> os_listdir (todo_folder ws) = []
      \<and> os_listdir (error_folder ws) = [])"

definition should_recreate_files :: "workspace \<Rightarrow> bool" where
  "should_recreate_files ws =
     (if is_workspace_clean ws then False
      else if os_listdir (error_folder ws) \<noteq> [] then False
      else if os_listdir (todo_folder ws) \<noteq> [] then False
      else True)"

text \<open>\<open>FILE_NAME_PATTERN = '{domain}-{repository}-{format}-{namespace}-{package}'\<close>\<close>

definition target_filename :: "row \<Rightarrow> string" where
  "target_filename line =
     domain line @ ''-'' @ repository line @ ''-'' @ format line @ ''-''
       @ namespace line @ ''-'' @ package line"

text \<open>
  \<open>open(target_filepath, 'w+')\<close> for a file name in a folder: it creates the file or
  truncates an existing one, and it raises when the path cannot be opened. A name with a
  null byte is refused by Python. A name with a path separator is a path through a
  subdirectory of the folder, and a folder holds only files: \<open>NotADirectoryError\<close> when the
  first component is one of its files, \<open>FileNotFoundError\<close> otherwise (so also for a name that
  starts with the separator, an absolute path outside the workspace, which the model does
  not have). A component of more than 255 bytes is longer than the file system allows.
  The result is the exception raised, if any.
\<close>

definition open_w_plus :: "folder \<Rightarrow> string \<Rightarrow> exn option" where
  "open_w_plus d filename =
     (let first = takeWhile (\<lambda>c. c \<noteq> CHR ''/'') filename
      in if CHR 0x00 \<in> set filename then Some (ValueError ''embedded null byte'')
         else if 255 < length first then Some (OSError ''File name too long'')
         else if CHR ''/'' \<in> set filename
              then (if os_path_exists d first then Some NotADirectoryError
                    else Some FileNotFoundError)
         else None)"

text \<open>
  The loop of \<open>create_input_files\<close>: each line is written to the file of its name in
  \<open>todo\<close>. An exception of \<open>open\<close> leaves the loop, with the files written so far; the
  result is the folder and the exception, if any.
\<close>

fun write_lines :: "folder \<Rightarrow> row list \<Rightarrow> folder \<times> exn option" where
  "write_lines d [] = (d, None)"
| "write_lines d (line # rest) =
     (case open_w_plus d (target_filename line) of
        Some e \<Rightarrow> (d, Some e)
      | None \<Rightarrow> write_lines (AList.update (target_filename line) line d) rest)"

text \<open>
  \<open>create_input_files\<close>: the workspace afterwards and the exception raised, if any (none
  of them is caught).
\<close>

definition create_input_files :: "workspace \<Rightarrow> row list \<Rightarrow> workspace \<times> exn option" where
  "create_input_files ws lines =
     (if \<not> should_recreate_files ws then (ws, None)
      else (case write_lines (todo_folder ws) lines of
              (d, e) \<Rightarrow> (ws\<lparr>todo_folder := d\<rparr>, e)))"

section \<open>Creating the directories\<close>

text \<open>
  The directory tree is the set of the directories that exist, each a list of path
  components below the current directory (the empty path, which always exists).
  \<open>os.mkdir\<close> raises \<open>FileExistsError\<close> for an existing path and \<open>FileNotFoundError\<close> when the
  parent is missing.
\<close>

type_synonym path = "string list"

definition os_mkdir :: "path set \<Rightarrow> path \<Rightarrow> exn + path set" where
  "os_mkdir dirs p =
     (if p = [] \<or> p \<in> dirs then Inl FileExistsError
      else if butlast p \<noteq> [] \<and> butlast p \<notin> dirs then Inl FileNotFoundError
      else Inr (insert p dirs))"

text \<open>
  The statements of one \<open>try\<close> block, all of them \<open>os.mkdir\<close> calls: the first exception
  leaves the block, with the directories made so far.
\<close>

fun mkdirs :: "path set \<Rightarrow> path list \<Rightarrow> path set \<times> exn option" where
  "mkdirs dirs [] = (dirs, None)"
| "mkdirs dirs (p # ps) =
     (case os_mkdir dirs p of
        Inl e \<Rightarrow> (dirs, Some e)
      | Inr dirs' \<Rightarrow> mkdirs dirs' ps)"

text \<open>\<open>except FileExistsError: pass\<close>: any other exception propagates.\<close>

fun except_FileExistsError_pass :: "path set \<times> exn option \<Rightarrow> exn + path set" where
  "except_FileExistsError_pass (dirs, None) = Inr dirs"
| "except_FileExistsError_pass (dirs, Some e) = (if e = FileExistsError then Inr dirs else Inl e)"

text \<open>
  \<open>WorkspaceManager.setup_workspace\<close>: returns the directory tree and the three folder
  paths.
\<close>

definition setup_workspace ::
  "path set \<Rightarrow> path \<Rightarrow> string \<Rightarrow> exn + (path set \<times> (path \<times> path \<times> path))" where
  "setup_workspace dirs workspaces_home content_hash =
     (let workspace_dir = workspaces_home @ [content_hash];
          todo = workspace_dir @ [''todo''];
          error = workspace_dir @ [''error''];
          done = workspace_dir @ [''done'']
      in (case except_FileExistsError_pass (mkdirs dirs [workspaces_home]) of
            Inl e \<Rightarrow> Inl e
          | Inr dirs1 \<Rightarrow>
              (case except_FileExistsError_pass (mkdirs dirs1 [workspace_dir, todo, error, done]) of
                 Inl e \<Rightarrow> Inl e
               | Inr dirs2 \<Rightarrow> Inr (dirs2, (todo, error, done)))))"

section \<open>The remote client\<close>

text \<open>
  The \<open>restrictions\<close> dictionary of a package's origin configuration, and the \<open>input\<close>
  dictionary the client builds for a call (the namespace only when it is not empty, the
  restrictions only when they are applied).
\<close>

record restrictions =
  restrictions_upstream :: string
  restrictions_publish :: string

record request =
  request_domain :: string
  request_repository :: string
  request_format :: string
  request_package :: string
  request_namespace :: "string option"
  request_restrictions :: "restrictions option"

text \<open>
  The client: its \<open>DOMAIN\<close> and the two operations of the remote service it calls. The
  service is outside the program; its answer to a request may depend on what the client
  was asked before, and it may raise. The log records every call of the client's two
  methods, with the keyword arguments of the call.
\<close>

datatype call = GetRestrictions row | ApplyRestrictions row

record codeartifact_client =
  DOMAIN :: string
  describe_package :: "call list \<Rightarrow> request \<Rightarrow> exn + restrictions"
  put_package_origin_configuration :: "call list \<Rightarrow> request \<Rightarrow> exn + string"

definition get_restrictions ::
  "codeartifact_client \<Rightarrow> call list \<Rightarrow> row \<Rightarrow> call list \<times> (exn + restrictions)" where
  "get_restrictions client log kwargs =
     (if domain kwargs \<noteq> DOMAIN client
      then (log @ [GetRestrictions kwargs], Inl (Exception ''Domain mismatch!''))
      else (let input = \<lparr>request_domain = domain kwargs,
                         request_repository = repository kwargs,
                         request_format = format kwargs,
                         request_package = package kwargs,
                         request_namespace =
                           (if namespace kwargs \<noteq> [] then Some (namespace kwargs) else None),
                         request_restrictions = None\<rparr>
            in (log @ [GetRestrictions kwargs], describe_package client log input)))"

definition apply_restrictions ::
  "codeartifact_client \<Rightarrow> call list \<Rightarrow> row \<Rightarrow> call list \<times> (exn + string)" where
  "apply_restrictions client log kwargs =
     (if domain kwargs \<noteq> DOMAIN client
      then (log @ [ApplyRestrictions kwargs], Inl (Exception ''Domain mismatch!''))
      else (let input = \<lparr>request_domain = domain kwargs,
                         request_repository = repository kwargs,
                         request_format = format kwargs,
                         request_package = package kwargs,
                         request_namespace =
                           (if namespace kwargs \<noteq> [] then Some (namespace kwargs) else None),
                         request_restrictions =
                           Some \<lparr>restrictions_upstream = upstream kwargs,
                                 restrictions_publish = publish kwargs\<rparr>\<rparr>
            in (log @ [ApplyRestrictions kwargs],
                put_package_origin_configuration client log input)))"

text \<open>The mutation operation of the client is \<open>apply_restrictions\<close>.\<close>

fun is_mutation :: "call \<Rightarrow> bool" where
  "is_mutation (GetRestrictions kwargs) = False"
| "is_mutation (ApplyRestrictions kwargs) = True"

section \<open>The backup manager\<close>

text \<open>
  The backup file as the lines handed to it, split into those still in the writer's
  buffer and those flushed to disk. A line is the header or the CSV serialisation of a
  row of the seven fields of \<open>CSV_HEADER\<close>.
\<close>

datatype csv_line = HeaderLine | DataLine row

datatype writer_position = BeforeHeader | InLoop

record backup_manager =
  task_queue :: "(row \<times> restrictions) list"
  writer_thread :: writer_position
  target_file_buffer :: "csv_line list"
  target_file_flushed :: "csv_line list"

text \<open>
  \<open>init_as_write\<close>: the file is opened with mode \<open>'w+'\<close> (empty), and the writer thread is
  started at the top of \<open>_writer_thread\<close>.
\<close>

definition init_as_write :: backup_manager where
  "init_as_write =
     \<lparr>task_queue = [], writer_thread = BeforeHeader,
      target_file_buffer = [], target_file_flushed = []\<rparr>"

definition do_backup :: "backup_manager \<Rightarrow> row \<Rightarrow> restrictions \<Rightarrow> backup_manager" where
  "do_backup bm pkg origin_configuration =
     bm\<lparr>task_queue := task_queue bm @ [(pkg, origin_configuration)]\<rparr>"

text \<open>The \<open>line\<close> dictionary of \<open>_writer_thread\<close>, in the field order of \<open>CSV_HEADER\<close>.\<close>

definition backup_line :: "row \<times> restrictions \<Rightarrow> row" where
  "backup_line task =
     (case task of (pkg, origin_configuration) \<Rightarrow>
        \<lparr>domain = domain pkg,
         repository = repository pkg,
         format = format pkg,
         namespace = namespace pkg,
         package = package pkg,
         upstream = restrictions_upstream origin_configuration,
         publish = restrictions_publish origin_configuration\<rparr>)"

text \<open>
  One step of \<open>_writer_thread\<close>: \<open>writeheader()\<close> first; then, each time round the loop,
  \<open>task_queue.get()\<close> (which blocks while the queue is empty: no change), \<open>writerow(line)\<close>
  and \<open>flush()\<close>.
\<close>

definition writer_thread_step :: "backup_manager \<Rightarrow> backup_manager" where
  "writer_thread_step bm =
     (case writer_thread bm of
        BeforeHeader \<Rightarrow>
          bm\<lparr>writer_thread := InLoop, target_file_buffer := target_file_buffer bm @ [HeaderLine]\<rparr>
      | InLoop \<Rightarrow>
          (case task_queue bm of
             [] \<Rightarrow> bm
           | task # rest \<Rightarrow>
               bm\<lparr>task_queue := rest,
                  target_file_buffer := [],
                  target_file_flushed :=
                    target_file_flushed bm @ target_file_buffer bm @ [DataLine (backup_line task)]\<rparr>))"

text \<open>
  The producers and the writer thread run concurrently; \<open>queue.Queue\<close> makes \<open>put\<close> and
  \<open>get\<close> atomic. A run is a schedule: the \<open>do_backup\<close> calls and the steps of the writer
  thread in the order in which they take effect.
\<close>

datatype event = Record row restrictions | WriterStep

fun backup_event :: "backup_manager \<Rightarrow> event \<Rightarrow> backup_manager" where
  "backup_event bm (Record pkg origin_configuration) = do_backup bm pkg origin_configuration"
| "backup_event bm WriterStep = writer_thread_step bm"

fun run_schedule :: "backup_manager \<Rightarrow> event list \<Rightarrow> backup_manager" where
  "run_schedule bm [] = bm"
| "run_schedule bm (ev # evs) = run_schedule (backup_event bm ev) evs"

fun recorded :: "event list \<Rightarrow> (row \<times> restrictions) list" where
  "recorded [] = []"
| "recorded (Record pkg origin_configuration # evs) = (pkg, origin_configuration) # recorded evs"
| "recorded (WriterStep # evs) = recorded evs"

definition file_content :: "backup_manager \<Rightarrow> csv_line list" where
  "file_content bm = target_file_flushed bm @ target_file_buffer bm"

section \<open>The dispatcher\<close>

text \<open>
  What the dispatcher works on: the workspace folders, the lines still to be read from the
  standard input, the backup manager and the log of the calls made to the client.
\<close>

record world =
  fs :: workspace
  stdin :: "string list"
  backup :: backup_manager
  calls :: "call list"

record args =
  ask_confirmation :: bool
  dry_run :: bool
  retry_failed :: bool

text \<open>
  \<open>get_user_confirmation\<close> of \<open>toolkit/utils.py\<close>: \<open>input()\<close> reads one line and raises
  \<open>EOFError\<close> at the end of the input.
\<close>

definition get_user_confirmation :: "string list \<Rightarrow> string list \<times> (exn + bool)" where
  "get_user_confirmation inp =
     (case inp of
        [] \<Rightarrow> ([], Inl EOFError)
      | user_choice # rest \<Rightarrow>
          (if user_choice \<notin> set [''Y'', ''y'', ''N'', ''n'']
           then (rest, Inl (Exception ('' '' @ user_choice @ '' is not a valid input.'')))
           else if user_choice \<in> set [''N'', ''n''] then (rest, Inr False)
           else (rest, Inr True)))"

text \<open>
  A task as \<open>get_tasks\<close> yields it: the id, the reader and the two callbacks, which are
  methods of the workspace manager acting on the folders.
\<close>

type_synonym task =
  "string \<times> (workspace \<Rightarrow> string \<Rightarrow> exn + row)
     \<times> (workspace \<Rightarrow> string \<Rightarrow> exn + workspace) \<times> (workspace \<Rightarrow> string \<Rightarrow> exn + workspace)"

definition get_tasks :: "workspace \<Rightarrow> task list" where
  "get_tasks ws = map (\<lambda>item. (item, reader, move_to_done, move_to_error)) (os_listdir (todo_folder ws))"

definition get_failed_tasks :: "workspace \<Rightarrow> task list" where
  "get_failed_tasks ws =
     map (\<lambda>item. (item, reader, move_to_done, move_to_error)) (os_listdir (error_folder ws))"

text \<open>
  The three statements of the \<open>try\<close> block of \<open>run_individual_task\<close>. The confirmation is
  read only when \<open>args.ask_confirmation\<close> is set; the backup evaluates \<open>reader(task_id)\<close>
  twice, then \<open>get_restrictions\<close>, then \<open>do_backup\<close>.
\<close>

definition confirmation :: "args \<Rightarrow> world \<Rightarrow> world \<times> (exn + bool)" where
  "confirmation a w =
     (if ask_confirmation a
      then (case get_user_confirmation (stdin w) of (rest, r) \<Rightarrow> (w\<lparr>stdin := rest\<rparr>, r))
      else (w, Inr True))"

definition backup_task ::
  "codeartifact_client \<Rightarrow> string \<Rightarrow> (workspace \<Rightarrow> string \<Rightarrow> exn + row) \<Rightarrow> world \<Rightarrow> world \<times> (exn + unit)" where
  "backup_task client task_id rd w =
     (case rd (fs w) task_id of
        Inl e \<Rightarrow> (w, Inl e)
      | Inr pkg \<Rightarrow>
          (case rd (fs w) task_id of
             Inl e \<Rightarrow> (w, Inl e)
           | Inr kwargs \<Rightarrow>
               (case get_restrictions client (calls w) kwargs of
                  (log, r) \<Rightarrow>
                    (case r of
                       Inl e \<Rightarrow> (w\<lparr>calls := log\<rparr>, Inl e)
                     | Inr origin_configuration \<Rightarrow>
                         (w\<lparr>calls := log,
                            backup := do_backup (backup w) pkg origin_configuration\<rparr>,
                          Inr ())))))"

definition mutate_task ::
  "codeartifact_client \<Rightarrow> string \<Rightarrow> (workspace \<Rightarrow> string \<Rightarrow> exn + row) \<Rightarrow> world \<Rightarrow> world \<times> (exn + string)" where
  "mutate_task client task_id rd w =
     (case rd (fs w) task_id of
        Inl e \<Rightarrow> (w, Inl e)
      | Inr kwargs \<Rightarrow>
          (case apply_restrictions client (calls w) kwargs of
             (log, r) \<Rightarrow> (w\<lparr>calls := log\<rparr>, r)))"

text \<open>
  How the \<open>try\<close> block ends when nothing is raised: by its \<open>return\<close> after a negative
  confirmation, or by reaching its end with the value of \<open>res\<close>.
\<close>

datatype try_end = ReturnNotConfirmed | EndOfTry "string option"

definition try_block ::
  "args \<Rightarrow> codeartifact_client \<Rightarrow> bool \<Rightarrow> string \<Rightarrow> (workspace \<Rightarrow> string \<Rightarrow> exn + row)
     \<Rightarrow> world \<Rightarrow> world \<times> (exn + try_end)" where
  "try_block a client backup_manager task_id rd w =
     (case confirmation a w of
        (w1, c) \<Rightarrow>
          (case c of
             Inl e \<Rightarrow> (w1, Inl e)
           | Inr confirmed \<Rightarrow>
               (if \<not> confirmed then (w1, Inr ReturnNotConfirmed)
                else (case (if backup_manager then backup_task client task_id rd w1
                            else (w1, Inr ())) of
                        (w2, b) \<Rightarrow>
                          (case b of
                             Inl e \<Rightarrow> (w2, Inl e)
                           | Inr u \<Rightarrow>
                               (if \<not> dry_run a
                                then (case mutate_task client task_id rd w2 of
                                        (w3, m) \<Rightarrow>
                                          (case m of
                                             Inl e \<Rightarrow> (w3, Inl e)
                                           | Inr res \<Rightarrow> (w3, Inr (EndOfTry (Some res)))))
                                else (w2, Inr (EndOfTry None))))))))"

text \<open>
  \<open>run_individual_task\<close>: an exception of the \<open>try\<close> block is caught and the error callback
  called; an exception of a callback is not caught (\<open>Inl\<close>).
\<close>

definition run_individual_task ::
  "args \<Rightarrow> codeartifact_client \<Rightarrow> task \<Rightarrow> bool \<Rightarrow> world
     \<Rightarrow> world \<times> (exn + (string \<times> string option \<times> bool))" where
  "run_individual_task a client task backup_manager w =
     (case task of
        (task_id, rd, done_callback, error_callback) \<Rightarrow>
          (case try_block a client backup_manager task_id rd w of
             (w1, t) \<Rightarrow>
               (case t of
                  Inl e \<Rightarrow>
                    (case error_callback (fs w1) task_id of
                       Inl e' \<Rightarrow> (w1, Inl e')
                     | Inr fs' \<Rightarrow> (w1\<lparr>fs := fs'\<rparr>, Inr (task_id, None, False)))
                | Inr ReturnNotConfirmed \<Rightarrow> (w1, Inr (task_id, None, False))
                | Inr (EndOfTry res) \<Rightarrow>
                    (case done_callback (fs w1) task_id of
                       Inl e' \<Rightarrow> (w1, Inl e')
                     | Inr fs' \<Rightarrow> (w1\<lparr>fs := fs'\<rparr>, Inr (task_id, res, True))))))"

definition dispatch_task ::
  "args \<Rightarrow> codeartifact_client \<Rightarrow> bool \<Rightarrow> task \<Rightarrow> world \<Rightarrow> world \<times> (exn + bool)" where
  "dispatch_task a client backup_manager task w =
     (case run_individual_task a client task backup_manager w of
        (w', r) \<Rightarrow>
          (case r of
             Inl e \<Rightarrow> (w', Inl e)
           | Inr (task_id, result, success) \<Rightarrow> (w', Inr success)))"

text \<open>
  \<open>thread_map\<close> runs the function on every task in a pool of worker threads and returns
  the results in the order of the tasks. The model runs the tasks one after the other, in
  that order; an exception that leaves a task ends the run.
\<close>

fun thread_map ::
  "(task \<Rightarrow> world \<Rightarrow> world \<times> (exn + bool)) \<Rightarrow> task list \<Rightarrow> world \<Rightarrow> world \<times> (exn + bool list)" where
  "thread_map fn [] w = (w, Inr [])"
| "thread_map fn (task # tasks) w =
     (case fn task w of
        (w1, r) \<Rightarrow>
          (case r of
             Inl e \<Rightarrow> (w1, Inl e)
           | Inr success \<Rightarrow>
               (case thread_map fn tasks w1 of
                  (w2, rs) \<Rightarrow>
                    (case rs of
                       Inl e \<Rightarrow> (w2, Inl e)
                     | Inr proc \<Rightarrow> (w2, Inr (success # proc))))))"

text \<open>
  The world in which the task of index \<open>j\<close> of the run starts: the one the first \<open>j\<close> tasks
  have left.
\<close>

definition world_before ::
  "(task \<Rightarrow> world \<Rightarrow> world \<times> (exn + bool)) \<Rightarrow> task list \<Rightarrow> world \<Rightarrow> nat \<Rightarrow> world" where
  "world_before fn tasks w j = fst (thread_map fn (take j tasks) w)"

text \<open>
  The part of \<open>dispatch_work\<close> that processes the tasks, from the choice of the task
  generator to the summary line \<open>Processed n tasks (s successes, f failures)\<close>, of which
  it returns the three numbers.
\<close>

definition dispatch_work ::
  "args \<Rightarrow> codeartifact_client \<Rightarrow> bool \<Rightarrow> world \<Rightarrow> world \<times> (exn + (nat \<times> nat \<times> nat))" where
  "dispatch_work a client backup_manager w =
     (let task_generator = (if retry_failed a then get_failed_tasks else get_tasks)
      in (case thread_map (dispatch_task a client backup_manager) (task_generator (fs w)) w of
            (w', r) \<Rightarrow>
              (case r of
                 Inl e \<Rightarrow> (w', Inl e)
               | Inr proc \<Rightarrow>
                   (w', Inr (length proc,
                             length (filter (\<lambda>x. x) proc),
                             length (filter (\<lambda>x. \<not> x) proc))))))"

section \<open>Example inputs\<close>

definition example_row :: row where
  "example_row =
     \<lparr>domain = ''d'', repository = ''r'', format = ''npm'', namespace = '''', package = ''p'',
      upstream = ''ALLOW'', publish = ''BLOCK''\<rparr>"

definition example_workspace :: workspace where
  "example_workspace =
     \<lparr>todo_folder = [(''d-r-npm--p'', example_row)], error_folder = [], done_folder = []\<rparr>"

definition example_failed :: workspace where
  "example_failed =
     \<lparr>todo_folder = [], error_folder = [(''d-r-npm--p'', example_row)], done_folder = []\<rparr>"

definition empty_workspace :: workspace where
  "empty_workspace = \<lparr>todo_folder = [], error_folder = [], done_folder = []\<rparr>"

text \<open>
  Two rows of the same domain, repository and format whose namespace and package differ
  but join to the same text: \<open>a-b\<close> and \<open>c\<close>, \<open>a\<close> and \<open>b-c\<close>.
\<close>

definition colliding_row_1 :: row where
  "colliding_row_1 =
     \<lparr>domain = ''d'', repository = ''r'', format = ''npm'', namespace = ''a-b'', package = ''c'',
      upstream = ''ALLOW'', publish = ''ALLOW''\<rparr>"

definition colliding_row_2 :: row where
  "colliding_row_2 =
     \<lparr>domain = ''d'', repository = ''r'', format = ''npm'', namespace = ''a'', package = ''b-c'',
      upstream = ''BLOCK'', publish = ''BLOCK''\<rparr>"

text \<open>The composite key of a row.\<close>

definition composite_key :: "row \<Rightarrow> string \<times> string \<times> string \<times> string \<times> string" where
  "composite_key line = (domain line, repository line, format line, namespace line, package line)"

text \<open>
  A workspace directory that exists without its three folders, and one that has only its
  \<open>todo\<close> folder.
\<close>

definition bare_workspace_dir :: "path set" where
  "bare_workspace_dir = {[''workspaces''], [''workspaces'', ''c0ffee'']}"

definition todo_only_workspace_dir :: "path set" where
  "todo_only_workspace_dir =
     {[''workspaces''], [''workspaces'', ''c0ffee''], [''workspaces'', ''c0ffee'', ''todo'']}"

text \<open>A row whose package has a path separator, and a third row.\<close>

definition separator_row :: row where
  "separator_row =
     \<lparr>domain = ''d'', repository = ''r'', format = ''npm'', namespace = '''', package = ''x/y'',
      upstream = ''ALLOW'', publish = ''ALLOW''\<rparr>"

definition third_row :: row where
  "third_row =
     \<lparr>domain = ''d'', repository = ''r'', format = ''npm'', namespace = '''', package = ''z'',
      upstream = ''ALLOW'', publish = ''ALLOW''\<rparr>"

text \<open>
  A client of domain \<open>d\<close> whose service answers every request, and a world with the example
  workspace, an empty backup queue and no call made yet.
\<close>

definition example_client :: codeartifact_client where
  "example_client =
     \<lparr>DOMAIN = ''d'',
      describe_package =
        (\<lambda>log input. Inr \<lparr>restrictions_upstream = ''BLOCK'', restrictions_publish = ''ALLOW''\<rparr>),
      put_package_origin_configuration = (\<lambda>log input. Inr ''ok'')\<rparr>"

definition example_world :: "string list \<Rightarrow> world" where
  "example_world inp = \<lparr>fs = example_workspace, stdin = inp, backup = init_as_write, calls = []\<rparr>"

definition example_task :: task where
  "example_task = (''d-r-npm--p'', reader, move_to_done, move_to_error)"

definition confirm_args :: args where
  "confirm_args = \<lparr>ask_confirmation = True, dry_run = False, retry_failed = False\<rparr>"

definition dry_run_args :: args where
  "dry_run_args = \<lparr>ask_confirmation = False, dry_run = True, retry_failed = False\<rparr>"

definition dry_run_confirm_args :: args where
  "dry_run_confirm_args = \<lparr>ask_confirmation = True, dry_run = True, retry_failed = False\<rparr>"

text \<open>
  The example task after a dry run with a backup manager and no confirmation: the
  restrictions the example client answers, and the world afterwards.
\<close>

definition example_restrictions :: restrictions where
  "example_restrictions = \<lparr>restrictions_upstream = ''BLOCK'', restrictions_publish = ''ALLOW''\<rparr>"

definition example_world_after_dry_run :: world where
  "example_world_after_dry_run =
     \<lparr>fs = \<lparr>todo_folder = [], error_folder = [], done_folder = [(''d-r-npm--p'', example_row)]\<rparr>,
      stdin = [],
      backup = init_as_write\<lparr>task_queue := [(example_row, example_restrictions)]\<rparr>,
      calls = [GetRestrictions example_row]\<rparr>"

text \<open>
  A workspace of two tasks, and a run with confirmation in which the first is answered
  \<open>y\<close> and the second \<open>n\<close>; the world afterwards.
\<close>

definition two_task_workspace :: workspace where
  "two_task_workspace =
     \<lparr>todo_folder = [(''d-r-npm--p'', example_row), (''d-r-npm--z'', third_row)],
      error_folder = [], done_folder = []\<rparr>"

definition two_task_world :: world where
  "two_task_world =
     \<lparr>fs = two_task_workspace, stdin = [''y'', ''n''], backup = init_as_write, calls = []\<rparr>"

definition two_task_world_after :: world where
  "two_task_world_after =
     \<lparr>fs = \<lparr>todo_folder = [(''d-r-npm--z'', third_row)], error_folder = [],
             done_folder = [(''d-r-npm--p'', example_row)]\<rparr>,
      stdin = [], backup = init_as_write, calls = [ApplyRestrictions example_row]\<rparr>"

text \<open>
  A run that is not a dry run, with a backup manager and no confirmation, and the world
  after the example task.
\<close>

definition plain_args :: args where
  "plain_args = \<lparr>ask_confirmation = False, dry_run = False, retry_failed = False\<rparr>"

definition example_world_after_run :: world where
  "example_world_after_run =
     \<lparr>fs = \<lparr>todo_folder = [], error_folder = [], done_folder = [(''d-r-npm--p'', example_row)]\<rparr>,
      stdin = [],
      backup = init_as_write\<lparr>task_queue := [(example_row, example_restrictions)]\<rparr>,
      calls = [GetRestrictions example_row, ApplyRestrictions example_row]\<rparr>"

text \<open>
  A schedule of two \<open>do_backup\<close> calls: the first is made before the writer thread has
  written the header, the second while the writer waits for the queue.
\<close>

definition example_schedule :: "event list" where
  "example_schedule =
     [Record example_row example_restrictions, WriterStep, WriterStep, WriterStep,
      Record colliding_row_1 example_restrictions, WriterStep]"

section \<open>Folder lemmas\<close>

lemma exists_delete [simp]:
  "os_path_exists (AList.delete k d) f = (f \<noteq> k \<and> os_path_exists d f)"
  by (auto simp: os_path_exists_def delete_conv')

lemma exists_update [simp]:
  "os_path_exists (AList.update k v d) f = (f = k \<or> os_path_exists d f)"
  by (auto simp: os_path_exists_def update_conv')

lemma exists_map_of: "map_of d f = Some c \<Longrightarrow> os_path_exists d f"
  by (simp add: os_path_exists_def)

lemma not_exists_map_of: "map_of d f = None \<Longrightarrow> \<not> os_path_exists d f"
  by (simp add: os_path_exists_def)

lemma shutil_move_cases:
  "shutil_move ws src f dst = r \<Longrightarrow> src \<noteq> dst \<Longrightarrow>
     (\<exists>e. r = Inl e \<and> (present ws dst f \<or> \<not> present ws src f))
     \<or> (\<exists>ws'. r = Inr ws' \<and> present ws src f \<and> \<not> present ws dst f
          \<and> present ws' dst f \<and> \<not> present ws' src f)"
  by (cases src; cases dst)
     (auto simp: shutil_move_def present_def Let_def exists_map_of not_exists_map_of
           split: option.splits if_splits)

lemma shutil_move_frame:
  "shutil_move ws src f dst = Inr ws' \<Longrightarrow> d \<noteq> src \<Longrightarrow> d \<noteq> dst \<Longrightarrow>
     get_folder ws' d = get_folder ws d"
  by (cases src; cases dst; cases d)
     (auto simp: shutil_move_def Let_def split: option.splits if_splits)

lemma shutil_move_other:
  "shutil_move ws src f dst = Inr ws' \<Longrightarrow> u \<noteq> f \<Longrightarrow> present ws' d u = present ws d u"
  by (cases src; cases dst; cases d)
     (auto simp: shutil_move_def present_def Let_def split: option.splits if_splits)

section \<open>The three transitions\<close>

lemma in_exactly_one_iff:
  "in_exactly_one ws t =
     ((present ws TODO t \<and> \<not> present ws ERROR t \<and> \<not> present ws DONE t)
      \<or> (\<not> present ws TODO t \<and> present ws ERROR t \<and> \<not> present ws DONE t)
      \<or> (\<not> present ws TODO t \<and> \<not> present ws ERROR t \<and> present ws DONE t))"
  by (simp add: in_exactly_one_def)

lemma shutil_move_exactly_one:
  assumes "in_exactly_one ws t" and "src \<noteq> dst"
  shows "in_exactly_one (state_after ws (shutil_move ws src t dst)) t"
proof (cases "shutil_move ws src t dst")
  case (Inl e)
  then show ?thesis using assms by (simp add: state_after_def)
next
  case (Inr ws')
  from shutil_move_cases [OF Inr assms(2)]
  have m: "present ws src t" "\<not> present ws dst t" "present ws' dst t" "\<not> present ws' src t"
    by auto
  have fr: "\<And>d. d \<noteq> src \<Longrightarrow> d \<noteq> dst \<Longrightarrow> present ws' d t = present ws d t"
    using shutil_move_frame [OF Inr] by (simp add: present_def)
  show ?thesis
    using assms m fr
    unfolding Inr state_after_def in_exactly_one_iff
    by (cases src; cases dst) auto
qed

text \<open>
  Claim C1. When a task id has a file in exactly one of \<open>todo\<close>, \<open>error\<close> and \<open>done\<close>, it
  still has a file in exactly one of them after \<open>move_to_done\<close>, after \<open>move_to_error\<close> and
  after \<open>move_to_retry\<close> for that id, whether the call returns or raises (a raise leaves the
  folders as they were).
\<close>

theorem moves_preserve_exactly_one:
  assumes "in_exactly_one ws t"
  shows "in_exactly_one (state_after ws (move_to_done ws t)) t
       \<and> in_exactly_one (state_after ws (move_to_error ws t)) t
       \<and> in_exactly_one (state_after ws (move_to_retry ws t)) t"
proof (intro conjI)
  show "in_exactly_one (state_after ws (move_to_done ws t)) t"
    using shutil_move_exactly_one [OF assms] by (simp add: move_to_done_def Let_def)
  show "in_exactly_one (state_after ws (move_to_error ws t)) t"
    using shutil_move_exactly_one [OF assms, of TODO ERROR] assms
    by (simp add: move_to_error_def state_after_def)
  show "in_exactly_one (state_after ws (move_to_retry ws t)) t"
    using shutil_move_exactly_one [OF assms] by (simp add: move_to_retry_def)
qed

lemmas eval_defs = example_workspace_def example_row_def in_exactly_one_def present_def
  os_path_exists_def state_after_def move_to_done_def move_to_error_def move_to_retry_def
  shutil_move_def Let_def

theorem moves_preserve_exactly_one_witness:
  "in_exactly_one example_workspace ''d-r-npm--p''
   \<and> in_exactly_one (state_after example_workspace (move_to_done example_workspace ''d-r-npm--p'')) ''d-r-npm--p''
   \<and> in_exactly_one (state_after example_workspace (move_to_error example_workspace ''d-r-npm--p'')) ''d-r-npm--p''
   \<and> in_exactly_one (state_after example_workspace (move_to_retry example_workspace ''d-r-npm--p'')) ''d-r-npm--p''
   \<and> move_to_done example_workspace ''d-r-npm--p'' =
       Inr \<lparr>todo_folder = [], error_folder = [], done_folder = [(''d-r-npm--p'', example_row)]\<rparr>
   \<and> move_to_retry example_workspace ''d-r-npm--p'' = Inl (ShutilError ''Destination path already exists'')"
proof -
  have h: "in_exactly_one example_workspace ''d-r-npm--p''"
    by (simp add: eval_defs)
  have e: "move_to_done example_workspace ''d-r-npm--p'' =
       Inr \<lparr>todo_folder = [], error_folder = [], done_folder = [(''d-r-npm--p'', example_row)]\<rparr>"
    "move_to_retry example_workspace ''d-r-npm--p'' = Inl (ShutilError ''Destination path already exists'')"
    by (simp_all add: eval_defs)
  show ?thesis using h e moves_preserve_exactly_one [OF h] by simp
qed

text \<open>
  Claim C3. When \<open>error\<close> already holds a file of the task id, \<open>move_to_error\<close> changes
  nothing; so after a first \<open>move_to_error\<close> that returned, a second one returns the same
  folders: the content of the error file is the first one's, and nothing is moved out of
  \<open>todo\<close>.
\<close>

theorem move_to_error_first_failure_wins:
  "(os_path_exists (error_folder ws) t \<longrightarrow> move_to_error ws t = Inr ws)
   \<and> (move_to_error ws t = Inr ws1 \<longrightarrow>
        move_to_error ws1 t = Inr ws1
        \<and> map_of (error_folder (state_after ws1 (move_to_error ws1 t))) t = map_of (error_folder ws1) t
        \<and> todo_folder (state_after ws1 (move_to_error ws1 t)) = todo_folder ws1)"
proof (intro conjI impI)
  assume "os_path_exists (error_folder ws) t"
  then show "move_to_error ws t = Inr ws" by (simp add: move_to_error_def)
next
  assume a: "move_to_error ws t = Inr ws1"
  have ex: "os_path_exists (error_folder ws1) t"
  proof (cases "os_path_exists (error_folder ws) t")
    case True
    with a show ?thesis by (simp add: move_to_error_def)
  next
    case False
    with a have "shutil_move ws TODO t ERROR = Inr ws1" by (simp add: move_to_error_def)
    from shutil_move_cases [OF this] show ?thesis by (auto simp: present_def)
  qed
  then show s: "move_to_error ws1 t = Inr ws1" by (simp add: move_to_error_def)
  show "map_of (error_folder (state_after ws1 (move_to_error ws1 t))) t = map_of (error_folder ws1) t"
    by (simp add: s state_after_def)
  show "todo_folder (state_after ws1 (move_to_error ws1 t)) = todo_folder ws1"
    by (simp add: s state_after_def)
qed

theorem move_to_error_first_failure_wins_witness:
  "os_path_exists (error_folder example_failed) ''d-r-npm--p''
   \<and> move_to_error example_failed ''d-r-npm--p'' = Inr example_failed
   \<and> move_to_error example_workspace ''d-r-npm--p'' = Inr example_failed
   \<and> map_of (error_folder (state_after example_failed (move_to_error example_failed ''d-r-npm--p''))) ''d-r-npm--p''
       = Some example_row"
proof -
  have h1: "os_path_exists (error_folder example_failed) ''d-r-npm--p''"
    by (simp add: example_failed_def os_path_exists_def)
  have h2: "move_to_error example_workspace ''d-r-npm--p'' = Inr example_failed"
    by (simp add: example_failed_def eval_defs)
  have c: "map_of (error_folder example_failed) ''d-r-npm--p'' = Some example_row"
    by (simp add: example_failed_def)
  from move_to_error_first_failure_wins [of example_workspace "''d-r-npm--p''" example_failed] h2
  have s: "move_to_error example_failed ''d-r-npm--p'' = Inr example_failed"
    by blast
  show ?thesis
    using h1 h2 c s by (simp add: state_after_def)
qed


lemma shutil_move_ok:
  assumes "map_of (get_folder ws src) t = Some c" "\<not> present ws dst t" "src \<noteq> dst"
  shows "\<exists>ws'. shutil_move ws src t dst = Inr ws' \<and> map_of (get_folder ws' dst) t = Some c
           \<and> \<not> present ws' src t"
  using assms
  by (cases src; cases dst)
     (simp_all add: shutil_move_def present_def Let_def update_conv')

text \<open>
  Claim C7. For a task id whose file is in \<open>todo\<close>, in a workspace that has it in exactly one
  folder, \<open>move_to_error\<close>, then \<open>move_to_retry\<close>, then \<open>move_to_done\<close> all return and
  leave the file, with its content, in \<open>done\<close> and in neither \<open>todo\<close> nor \<open>error\<close>.
\<close>

theorem retry_round_trip:
  assumes todo: "present ws TODO t" and one: "in_exactly_one ws t"
  shows "\<exists>ws1 ws2 ws3. move_to_error ws t = Inr ws1 \<and> move_to_retry ws1 t = Inr ws2
           \<and> move_to_done ws2 t = Inr ws3
           \<and> present ws3 DONE t \<and> \<not> present ws3 TODO t \<and> \<not> present ws3 ERROR t
           \<and> map_of (done_folder ws3) t = map_of (todo_folder ws) t"
proof -
  from todo one have assms: "present ws TODO t" "\<not> present ws ERROR t" "\<not> present ws DONE t"
    by (auto simp: in_exactly_one_iff)
  from assms(1) obtain c where c: "map_of (get_folder ws TODO) t = Some c"
    by (auto simp: present_def os_path_exists_def)
  from shutil_move_ok [OF c, of ERROR] assms(2)
  obtain ws1 where 1: "shutil_move ws TODO t ERROR = Inr ws1"
    "map_of (get_folder ws1 ERROR) t = Some c" "\<not> present ws1 TODO t"
    by auto
  have 14: "get_folder ws1 DONE = get_folder ws DONE"
    using shutil_move_frame [OF 1(1), of DONE] by simp
  have e: "move_to_error ws t = Inr ws1"
    using 1(1) assms(2) by (simp add: move_to_error_def present_def)
  from shutil_move_ok [OF 1(2), of TODO] 1(3)
  obtain ws2 where 2: "shutil_move ws1 ERROR t TODO = Inr ws2"
    "map_of (get_folder ws2 TODO) t = Some c" "\<not> present ws2 ERROR t"
    by auto
  have 24: "get_folder ws2 DONE = get_folder ws1 DONE"
    using shutil_move_frame [OF 2(1), of DONE] by simp
  have r: "move_to_retry ws1 t = Inr ws2"
    using 2(1) by (simp add: move_to_retry_def)
  have nd: "\<not> present ws2 DONE t"
    using assms(3) 14 24 by (simp add: present_def)
  from shutil_move_ok [OF 2(2) nd]
  obtain ws3 where 3: "shutil_move ws2 TODO t DONE = Inr ws3"
    "map_of (get_folder ws3 DONE) t = Some c" "\<not> present ws3 TODO t"
    by auto
  have 34: "get_folder ws3 ERROR = get_folder ws2 ERROR"
    using shutil_move_frame [OF 3(1), of ERROR] by simp
  have d: "move_to_done ws2 t = Inr ws3"
    using 3(1) 2(2) by (simp add: move_to_done_def Let_def os_path_exists_def)
  have "present ws3 DONE t" using 3(2) by (simp add: present_def os_path_exists_def)
  moreover have "\<not> present ws3 ERROR t" using 34 2(3) by (simp add: present_def)
  moreover have "map_of (done_folder ws3) t = map_of (todo_folder ws) t" using 3(2) c by simp
  ultimately show ?thesis using e r d 3(3) by blast
qed

theorem retry_round_trip_witness:
  "present example_workspace TODO ''d-r-npm--p'' \<and> in_exactly_one example_workspace ''d-r-npm--p''
   \<and> (\<exists>ws1 ws2 ws3. move_to_error example_workspace ''d-r-npm--p'' = Inr ws1
           \<and> move_to_retry ws1 ''d-r-npm--p'' = Inr ws2
           \<and> move_to_done ws2 ''d-r-npm--p'' = Inr ws3
           \<and> present ws3 DONE ''d-r-npm--p'' \<and> \<not> present ws3 TODO ''d-r-npm--p''
           \<and> \<not> present ws3 ERROR ''d-r-npm--p''
           \<and> map_of (done_folder ws3) ''d-r-npm--p'' = map_of (todo_folder example_workspace) ''d-r-npm--p'')"
proof -
  have h: "present example_workspace TODO ''d-r-npm--p''"
    "in_exactly_one example_workspace ''d-r-npm--p''"
    by (simp_all add: example_workspace_def present_def os_path_exists_def in_exactly_one_def)
  show ?thesis using h retry_round_trip [OF h] by blast
qed

section \<open>Populating the workspace: what is written\<close>

lemma should_recreate_files_iff:
  "should_recreate_files ws =
     (todo_folder ws = [] \<and> error_folder ws = [] \<and> done_folder ws = [])"
  by (auto simp: should_recreate_files_def is_workspace_clean_def os_listdir_def)

text \<open>
  \<open>create_input_files\<close> writes nothing, and raises nothing, unless the three folders are
  all empty.
\<close>

lemma create_input_files_gate:
  assumes "os_listdir (todo_folder ws) \<noteq> [] \<or> os_listdir (error_folder ws) \<noteq> []
             \<or> os_listdir (done_folder ws) \<noteq> []"
  shows "create_input_files ws lines = (ws, None)"
proof -
  from assms have "\<not> should_recreate_files ws"
    by (auto simp: should_recreate_files_iff os_listdir_def)
  then show ?thesis by (simp add: create_input_files_def)
qed

lemma takeWhile_no_separator:
  "CHR ''/'' \<notin> set filename \<Longrightarrow> takeWhile (\<lambda>c. c \<noteq> CHR ''/'') filename = filename"
  by (auto simp: takeWhile_eq_all_conv)

lemma open_w_plus_None:
  "open_w_plus d filename = None \<longleftrightarrow>
     CHR 0x00 \<notin> set filename \<and> CHR ''/'' \<notin> set filename \<and> length filename \<le> 255"
proof (cases "CHR ''/'' \<in> set filename")
  case True
  then show ?thesis by (simp add: open_w_plus_def Let_def)
next
  case False
  then show ?thesis
    by (simp add: open_w_plus_def Let_def takeWhile_no_separator)
qed

lemma open_w_plus_any_folder:
  "open_w_plus d filename = None \<Longrightarrow> open_w_plus d' filename = None"
  by (simp add: open_w_plus_None)

lemma content_write_lines:
  "map_of (fst (write_lines d lines)) f = Some c \<Longrightarrow>
     map_of d f = Some c \<or> (c \<in> set lines \<and> target_filename c = f)"
proof (induction lines arbitrary: d)
  case Nil
  then show ?case by simp
next
  case (Cons line rest)
  show ?case
  proof (cases "open_w_plus d (target_filename line)")
    case (Some e)
    with Cons.prems show ?thesis by simp
  next
    case None
    with Cons.prems
    have "map_of (fst (write_lines (AList.update (target_filename line) line d) rest)) f = Some c"
      by simp
    from Cons.IH [OF this]
    show ?thesis by (auto simp: update_conv' split: if_splits)
  qed
qed

lemma distinct_write_lines:
  "distinct (os_listdir d) \<Longrightarrow> distinct (os_listdir (fst (write_lines d lines)))"
proof (induction lines arbitrary: d)
  case Nil
  then show ?case by simp
next
  case (Cons line rest)
  from Cons.prems have "distinct (os_listdir (AList.update (target_filename line) line d))"
    by (simp add: os_listdir_def distinct_update)
  with Cons.IH Cons.prems show ?case
    by (cases "open_w_plus d (target_filename line)") simp_all
qed

text \<open>When every name can be opened, nothing is raised and every name has a file.\<close>

lemma write_lines_all_opened:
  assumes "\<And>line. line \<in> set lines \<Longrightarrow> open_w_plus [] (target_filename line) = None"
  shows "snd (write_lines d lines) = None
       \<and> set (os_listdir (fst (write_lines d lines)))
           = set (os_listdir d) \<union> target_filename ` set lines"
  using assms
proof (induction lines arbitrary: d)
  case Nil
  show ?case by simp
next
  case (Cons line rest)
  have o: "open_w_plus d (target_filename line) = None"
    using Cons.prems [of line] open_w_plus_any_folder by simp
  have k: "set (os_listdir (AList.update (target_filename line) line d))
          = insert (target_filename line) (set (os_listdir d))"
    by (simp add: os_listdir_def update_keys) auto
  from Cons.IH [of "AList.update (target_filename line) line d"] Cons.prems o k
  show ?case by auto
qed

text \<open>The last line of a name is the one its file holds.\<close>

lemma last_write_wins:
  assumes "\<And>l. l \<in> set (lines @ [line]) \<Longrightarrow> open_w_plus [] (target_filename l) = None"
  shows "map_of (fst (write_lines d (lines @ [line]))) (target_filename line) = Some line"
  using assms
proof (induction lines arbitrary: d)
  case Nil
  have "open_w_plus d (target_filename line) = None"
    using Nil [of line] open_w_plus_any_folder by simp
  then show ?case by (simp add: update_conv')
next
  case (Cons l ls)
  have "open_w_plus d (target_filename l) = None"
    using Cons.prems [of l] open_w_plus_any_folder by simp
  with Cons.IH [of "AList.update (target_filename l) l d"] Cons.prems show ?case by simp
qed

lemma update_new_file: "k \<notin> fst ` set d \<Longrightarrow> AList.update k v d = d @ [(k, v)]"
  by (induction d) auto

text \<open>Rows of distinct, openable file names: one file for each row, holding the row.\<close>

lemma length_write_lines:
  assumes "\<And>line. line \<in> set lines \<Longrightarrow> open_w_plus [] (target_filename line) = None"
    and "distinct (map target_filename lines)"
    and "target_filename ` set lines \<inter> set (os_listdir d) = {}"
  shows "fst (write_lines d lines) = d @ map (\<lambda>line. (target_filename line, line)) lines"
  using assms
proof (induction lines arbitrary: d)
  case Nil
  show ?case by simp
next
  case (Cons line rest)
  have o: "open_w_plus d (target_filename line) = None"
    using Cons.prems(1) [of line] open_w_plus_any_folder by simp
  have n: "target_filename line \<notin> fst ` set d"
    using Cons.prems(3) by (auto simp: os_listdir_def)
  then have u: "AList.update (target_filename line) line d = d @ [(target_filename line, line)]"
    by (rule update_new_file)
  have "target_filename ` set rest \<inter> set (os_listdir (d @ [(target_filename line, line)])) = {}"
    using Cons.prems(2,3) by (auto simp: os_listdir_def)
  with Cons.IH [of "d @ [(target_filename line, line)]"] Cons.prems(1,2) o u
  show ?case by simp
qed

lemma create_input_files_one_file_per_row:
  assumes "todo_folder ws = []" and "error_folder ws = []" and "done_folder ws = []"
    and "\<And>line. line \<in> set lines \<Longrightarrow> open_w_plus [] (target_filename line) = None"
    and "distinct (map target_filename lines)"
  shows "create_input_files ws lines
           = (ws\<lparr>todo_folder := map (\<lambda>line. (target_filename line, line)) lines\<rparr>, None)"
proof -
  have r: "should_recreate_files ws"
    using assms(1-3) by (simp add: should_recreate_files_iff)
  have "fst (write_lines [] lines) = [] @ map (\<lambda>line. (target_filename line, line)) lines"
    by (rule length_write_lines) (use assms(4,5) in \<open>simp_all add: os_listdir_def\<close>)
  then have f: "fst (write_lines [] lines) = map (\<lambda>line. (target_filename line, line)) lines"
    by simp
  have "snd (write_lines [] lines) = None
       \<and> set (os_listdir (fst (write_lines [] lines)))
           = set (os_listdir []) \<union> target_filename ` set lines"
    by (rule write_lines_all_opened) (rule assms(4))
  then have s: "snd (write_lines [] lines) = None" ..
  from f s have "write_lines [] lines = (map (\<lambda>line. (target_filename line, line)) lines, None)"
    by (cases "write_lines [] lines") simp
  with r assms(1) show ?thesis
    by (simp add: create_input_files_def)
qed

text \<open>
  A name that cannot be opened ends the loop: the rows before it have their files, the
  rows after it have none, and at the next start the workspace is not populated again.
\<close>

lemma create_input_files_stops_at_raise:
  "create_input_files empty_workspace [example_row, separator_row, third_row]
     = (example_workspace, Some FileNotFoundError)
   \<and> create_input_files example_workspace [example_row, separator_row, third_row]
     = (example_workspace, None)"
  by (simp add: create_input_files_def should_recreate_files_def is_workspace_clean_def
        os_listdir_def empty_workspace_def example_workspace_def example_row_def
        separator_row_def third_row_def target_filename_def open_w_plus_def Let_def
        os_path_exists_def)

text \<open>
  Claim C2. The first half of the claim holds of the code: unless \<open>todo\<close>, \<open>error\<close> and
  \<open>done\<close> are all empty, \<open>create_input_files\<close> leaves every folder as it is (lemma
  \<open>create_input_files_gate\<close>). With the three folders empty the input is split into one file
  for each task where the file names of the rows are distinct (lemma
  \<open>create_input_files_one_file_per_row\<close>), but not in general: the file name joins the five
  key fields with hyphens, which the fields may contain. Here the three folders are empty
  and the input has two tasks with different composite keys; nothing is raised, \<open>todo\<close>
  gets one file, no file holds the first row, and reading the task of the first row gives
  the second row.
\<close>

theorem create_input_files_loses_task:
  "os_listdir (todo_folder empty_workspace) = []
   \<and> os_listdir (error_folder empty_workspace) = []
   \<and> os_listdir (done_folder empty_workspace) = []
   \<and> composite_key colliding_row_1 \<noteq> composite_key colliding_row_2
   \<and> snd (create_input_files empty_workspace [colliding_row_1, colliding_row_2]) = None
   \<and> os_listdir (todo_folder
        (fst (create_input_files empty_workspace [colliding_row_1, colliding_row_2])))
       = [''d-r-npm-a-b-c'']
   \<and> colliding_row_1 \<notin> snd ` set (todo_folder
        (fst (create_input_files empty_workspace [colliding_row_1, colliding_row_2])))
   \<and> reader (fst (create_input_files empty_workspace [colliding_row_1, colliding_row_2]))
        (target_filename colliding_row_1) = Inr colliding_row_2"
  by (simp add: composite_key_def colliding_row_1_def colliding_row_2_def target_filename_def
        create_input_files_def should_recreate_files_def is_workspace_clean_def os_listdir_def
        empty_workspace_def open_w_plus_def Let_def reader_def os_path_exists_def)

text \<open>
  Claim C5. The claim holds of the code where the file names of the rows are distinct
  (lemma \<open>length_write_lines\<close>), and a later row of the same composite key overwrites the
  earlier one (lemma \<open>last_write_wins\<close>). But the file name joins the five fields with
  hyphens, which the fields may contain: here two rows with different composite keys get
  the same file name, and the workspace made from these two rows has one task file, which
  holds the second row.
\<close>

theorem create_input_files_name_collision:
  "composite_key colliding_row_1 \<noteq> composite_key colliding_row_2
   \<and> target_filename colliding_row_1 = target_filename colliding_row_2
   \<and> create_input_files empty_workspace [colliding_row_1, colliding_row_2]
       = (\<lparr>todo_folder = [(''d-r-npm-a-b-c'', colliding_row_2)], error_folder = [],
           done_folder = []\<rparr>, None)
   \<and> length (os_listdir (todo_folder
         (fst (create_input_files empty_workspace [colliding_row_1, colliding_row_2])))) = 1"
  by (simp add: composite_key_def colliding_row_1_def colliding_row_2_def target_filename_def
        create_input_files_def should_recreate_files_def is_workspace_clean_def os_listdir_def
        empty_workspace_def open_w_plus_def Let_def)

section \<open>Creating the directories: what exists afterwards\<close>

lemma setup_workspace_fresh:
  assumes "workspaces_home \<noteq> []"
    and "butlast workspaces_home = [] \<or> butlast workspaces_home \<in> dirs"
    and "workspaces_home @ [content_hash] \<notin> dirs"
    and "workspaces_home @ [content_hash, ''todo''] \<notin> dirs"
    and "workspaces_home @ [content_hash, ''error''] \<notin> dirs"
    and "workspaces_home @ [content_hash, ''done''] \<notin> dirs"
  shows "\<exists>dirs'. setup_workspace dirs workspaces_home content_hash =
           Inr (dirs', (workspaces_home @ [content_hash, ''todo''],
                        workspaces_home @ [content_hash, ''error''],
                        workspaces_home @ [content_hash, ''done'']))
         \<and> {workspaces_home @ [content_hash, ''todo''], workspaces_home @ [content_hash, ''error''],
             workspaces_home @ [content_hash, ''done'']} \<subseteq> dirs'"
  using assms
  by (auto simp: setup_workspace_def os_mkdir_def Let_def butlast_append)

lemma setup_workspace_complete:
  assumes "workspaces_home \<in> dirs" and "workspaces_home @ [content_hash] \<in> dirs"
  shows "setup_workspace dirs workspaces_home content_hash =
           Inr (dirs, (workspaces_home @ [content_hash, ''todo''],
                       workspaces_home @ [content_hash, ''error''],
                       workspaces_home @ [content_hash, ''done'']))"
  using assms
  by (simp add: setup_workspace_def os_mkdir_def Let_def)

text \<open>
  Claim C9. The four \<open>os.mkdir\<close> calls for the workspace directory and its three folders
  share one \<open>try\<close> block: when the workspace directory exists, the first call raises
  \<open>FileExistsError\<close> and the three others are skipped. So a workspace directory without
  its folders is left without them, and one with only \<open>todo\<close> is left without \<open>error\<close> and
  \<open>done\<close>; \<open>setup_workspace\<close> returns the three paths all the same.
\<close>

theorem setup_workspace_skips_missing_folders:
  "setup_workspace bare_workspace_dir [''workspaces''] ''c0ffee'' =
     Inr (bare_workspace_dir,
          ([''workspaces'', ''c0ffee'', ''todo''], [''workspaces'', ''c0ffee'', ''error''],
           [''workspaces'', ''c0ffee'', ''done'']))
   \<and> [''workspaces'', ''c0ffee'', ''todo''] \<notin> bare_workspace_dir
   \<and> [''workspaces'', ''c0ffee'', ''error''] \<notin> bare_workspace_dir
   \<and> [''workspaces'', ''c0ffee'', ''done''] \<notin> bare_workspace_dir
   \<and> setup_workspace todo_only_workspace_dir [''workspaces''] ''c0ffee'' =
     Inr (todo_only_workspace_dir,
          ([''workspaces'', ''c0ffee'', ''todo''], [''workspaces'', ''c0ffee'', ''error''],
           [''workspaces'', ''c0ffee'', ''done'']))
   \<and> [''workspaces'', ''c0ffee'', ''error''] \<notin> todo_only_workspace_dir
   \<and> [''workspaces'', ''c0ffee'', ''done''] \<notin> todo_only_workspace_dir"
  by (simp add: setup_workspace_def os_mkdir_def Let_def bare_workspace_dir_def
        todo_only_workspace_dir_def)

section \<open>The dispatcher: one task\<close>

lemma confirmation_negative:
  assumes "ask_confirmation a" and "stdin w = answer # rest" and "answer = ''N'' \<or> answer = ''n''"
  shows "confirmation a w = (w\<lparr>stdin := rest\<rparr>, Inr False)"
  using assms by (auto simp: confirmation_def get_user_confirmation_def)

lemma confirmation_invalid:
  assumes "ask_confirmation a" and "stdin w = user_choice # rest"
    and "user_choice \<notin> set [''Y'', ''y'', ''N'', ''n'']"
  shows "confirmation a w =
           (w\<lparr>stdin := rest\<rparr>, Inl (Exception ('' '' @ user_choice @ '' is not a valid input.'')))"
  using assms by (simp add: confirmation_def get_user_confirmation_def)

lemma run_individual_task_negative:
  assumes "ask_confirmation a" and "stdin w = answer # rest" and "answer = ''N'' \<or> answer = ''n''"
  shows "run_individual_task a client (task_id, rd, done_callback, error_callback) backup_manager w
           = (w\<lparr>stdin := rest\<rparr>, Inr (task_id, None, False))"
  using confirmation_negative [OF assms]
  by (simp add: run_individual_task_def try_block_def)

lemma run_individual_task_invalid:
  assumes "ask_confirmation a" and "stdin w = user_choice # rest"
    and "user_choice \<notin> set [''Y'', ''y'', ''N'', ''n'']"
  shows "run_individual_task a client (task_id, rd, done_callback, error_callback) backup_manager w
           = (case error_callback (fs w) task_id of
                Inl e \<Rightarrow> (w\<lparr>stdin := rest\<rparr>, Inl e)
              | Inr fs' \<Rightarrow> (w\<lparr>stdin := rest, fs := fs'\<rparr>, Inr (task_id, None, False)))"
  using confirmation_invalid [OF assms]
  by (simp add: run_individual_task_def try_block_def split: sum.splits)

text \<open>The \<open>try\<close> block reads, asks and calls, but moves no file.\<close>

lemma confirmation_frame:
  "confirmation a w = (w1, c) \<Longrightarrow> fs w1 = fs w \<and> calls w1 = calls w \<and> backup w1 = backup w"
  by (auto simp: confirmation_def split: if_splits prod.splits)

lemma backup_task_frame:
  "backup_task client task_id rd w = (w1, b) \<Longrightarrow>
     fs w1 = fs w \<and> filter is_mutation (calls w1) = filter is_mutation (calls w)"
  by (auto simp: backup_task_def get_restrictions_def Let_def
        split: sum.splits prod.splits if_splits)

lemma mutate_task_frame:
  "mutate_task client task_id rd w = (w1, m) \<Longrightarrow> fs w1 = fs w"
  by (auto simp: mutate_task_def split: sum.splits prod.splits)

lemma try_block_fs:
  "try_block a client backup_manager task_id rd w = (w1, t) \<Longrightarrow> fs w1 = fs w"
  unfolding try_block_def
  by (auto split: sum.splits prod.splits if_splits
        dest!: confirmation_frame backup_task_frame mutate_task_frame)

lemma try_block_dry_run:
  "dry_run a \<Longrightarrow> try_block a client backup_manager task_id rd w = (w1, t) \<Longrightarrow>
     filter is_mutation (calls w1) = filter is_mutation (calls w)"
  unfolding try_block_def
  by (auto split: sum.splits prod.splits if_splits
        dest!: confirmation_frame backup_task_frame)


lemma run_individual_task_dry_run:
  assumes "dry_run a"
  shows "filter is_mutation (calls (fst (run_individual_task a client task backup_manager w)))
           = filter is_mutation (calls w)"
proof -
  obtain task_id rd done_callback error_callback
    where t: "task = (task_id, rd, done_callback, error_callback)"
    by (cases task) auto
  obtain w1 r where b: "try_block a client backup_manager task_id rd w = (w1, r)"
    by (cases "try_block a client backup_manager task_id rd w") auto
  from try_block_dry_run [OF assms b]
  have "filter is_mutation (calls w1) = filter is_mutation (calls w)" .
  then show ?thesis
    by (simp add: run_individual_task_def t b split: sum.splits try_end.splits)
qed

lemma dispatch_task_calls:
  "calls (fst (dispatch_task a client backup_manager task w))
     = calls (fst (run_individual_task a client task backup_manager w))"
  by (simp add: dispatch_task_def split: prod.splits sum.splits)

lemma thread_map_dry_run:
  assumes "dry_run a"
  shows "filter is_mutation (calls (fst (thread_map (dispatch_task a client backup_manager) tasks w)))
           = filter is_mutation (calls w)"
proof (induction tasks arbitrary: w)
  case Nil
  show ?case by simp
next
  case (Cons task tasks)
  obtain w1 r where d: "dispatch_task a client backup_manager task w = (w1, r)"
    by (cases "dispatch_task a client backup_manager task w") auto
  have 1: "filter is_mutation (calls w1) = filter is_mutation (calls w)"
    using run_individual_task_dry_run [OF assms, of client task backup_manager w]
      dispatch_task_calls [of a client backup_manager task w] d
    by simp
  show ?case
  proof (cases r)
    case (Inl e)
    with d 1 show ?thesis by simp
  next
    case (Inr success)
    obtain w2 rs where t: "thread_map (dispatch_task a client backup_manager) tasks w1 = (w2, rs)"
      by (cases "thread_map (dispatch_task a client backup_manager) tasks w1") auto
    with Cons.IH [of w1] have "filter is_mutation (calls w2) = filter is_mutation (calls w1)"
      by simp
    with d 1 Inr t show ?thesis
      by (simp split: sum.splits)
  qed
qed

lemma try_block_end_dry_run:
  assumes "dry_run a"
    and "try_block a client backup_manager task_id rd w = (w1, Inr (EndOfTry res))"
  shows "res = None"
  using assms unfolding try_block_def
  by (auto split: sum.splits prod.splits if_splits)

lemma backup_task_recorded:
  assumes "backup_task client task_id rd w = (w1, Inr u)"
  shows "\<exists>pkg oc. rd (fs w) task_id = Inr pkg
           \<and> get_restrictions client (calls w) pkg = (calls w1, Inr oc)
           \<and> backup w1 = do_backup (backup w) pkg oc"
  using assms unfolding backup_task_def
  by (auto split: sum.splits prod.splits)

lemma try_block_end_backup:
  assumes "dry_run a"
    and "try_block a client True task_id rd w = (w1, Inr (EndOfTry res))"
  shows "\<exists>pkg oc. rd (fs w) task_id = Inr pkg
           \<and> get_restrictions client (calls w) pkg = (calls w1, Inr oc)
           \<and> backup w1 = do_backup (backup w) pkg oc"
proof -
  obtain w0 c where c: "confirmation a w = (w0, c)"
    by (cases "confirmation a w") auto
  from confirmation_frame [OF c]
  have f: "fs w0 = fs w" "calls w0 = calls w" "backup w0 = backup w" by auto
  from assms c obtain u where "backup_task client task_id rd w0 = (w1, Inr u)"
    unfolding try_block_def
    by (auto split: sum.splits prod.splits if_splits)
  from backup_task_recorded [OF this] f show ?thesis by simp
qed

lemma run_individual_task_success:
  assumes "run_individual_task a client (task_id, rd, done_callback, error_callback) backup_manager w
             = (w', Inr (t', res, True))"
  shows "\<exists>w1. try_block a client backup_manager task_id rd w = (w1, Inr (EndOfTry res))
           \<and> done_callback (fs w) task_id = Inr (fs w')
           \<and> calls w' = calls w1 \<and> backup w' = backup w1"
proof -
  obtain w1 r where b: "try_block a client backup_manager task_id rd w = (w1, r)"
    by (cases "try_block a client backup_manager task_id rd w") auto
  from try_block_fs [OF b] have f: "fs w1 = fs w" .
  from assms b f show ?thesis
    by (auto simp: run_individual_task_def split: sum.splits try_end.splits)
qed

lemma move_to_done_present:
  assumes "move_to_done ws t = Inr ws'"
  shows "present ws' DONE t"
    and "in_exactly_one ws t \<Longrightarrow> \<not> present ws' TODO t \<and> \<not> present ws' ERROR t"
proof -
  let ?src = "if \<not> os_path_exists (todo_folder ws) t then ERROR else TODO"
  from assms have m: "shutil_move ws ?src t DONE = Inr ws'"
    by (simp add: move_to_done_def Let_def)
  have ne: "?src \<noteq> DONE" by simp
  from shutil_move_cases [OF m ne] show d: "present ws' DONE t" by auto
  assume "in_exactly_one ws t"
  from shutil_move_exactly_one [OF this ne] m
  have "in_exactly_one ws' t" by (simp add: state_after_def)
  with d show "\<not> present ws' TODO t \<and> \<not> present ws' ERROR t"
    by (auto simp: in_exactly_one_iff)
qed

section \<open>The dispatcher: confirmation\<close>

lemma dispatch_task_negative:
  assumes "ask_confirmation a" and "stdin w = answer # rest" and "answer = ''N'' \<or> answer = ''n''"
  shows "dispatch_task a client backup_manager (task_id, rd, done_callback, error_callback) w
           = (w\<lparr>stdin := rest\<rparr>, Inr False)"
  using run_individual_task_negative [OF assms]
  by (simp add: dispatch_task_def)

text \<open>The results of \<open>thread_map\<close>, task by task.\<close>

lemma thread_map_length:
  "thread_map fn tasks w = (w', Inr proc) \<Longrightarrow> length proc = length tasks"
proof (induction tasks arbitrary: w proc)
  case Nil
  then show ?case by simp
next
  case (Cons task tasks)
  then show ?case
    by (auto split: prod.splits sum.splits)
qed

lemma world_before_0: "world_before fn tasks w 0 = w"
  by (simp add: world_before_def)

lemma thread_map_step:
  "thread_map fn tasks w = (w', Inr proc) \<Longrightarrow> j < length tasks \<Longrightarrow>
     fn (tasks ! j) (world_before fn tasks w j) = (world_before fn tasks w (Suc j), Inr (proc ! j))"
proof (induction tasks arbitrary: w proc j)
  case Nil
  then show ?case by simp
next
  case (Cons task tasks)
  from Cons.prems(1) obtain w1 success rest
    where s: "fn task w = (w1, Inr success)" "thread_map fn tasks w1 = (w', Inr rest)"
      "proc = success # rest"
    by (auto split: prod.splits sum.splits)
  show ?case
  proof (cases j)
    case 0
    have "world_before fn (task # tasks) w (Suc 0) = w1"
      using s(1) by (simp add: world_before_def)
    with 0 s show ?thesis by (simp add: world_before_0)
  next
    case (Suc k)
    with Cons.prems(2) have k: "k < length tasks" by simp
    have b: "world_before fn (task # tasks) w (Suc k) = world_before fn tasks w1 k"
      "world_before fn (task # tasks) w (Suc (Suc k)) = world_before fn tasks w1 (Suc k)"
      using s(1) by (simp_all add: world_before_def split: prod.splits sum.splits)
    from Cons.IH [OF s(2) k] Suc s(3) b show ?thesis
      by simp
  qed
qed

text \<open>
  Claim C4, as the code has it. With interactive confirmation, a negative answer ends the
  task with no state transition: whatever the callbacks are, neither is called, and the
  folders, the backup queue and the call log are as before. The outcome of the task is
  \<open>False\<close>. In any run that reaches its summary, whatever the other tasks and answers
  are, the summary reports the number of outcomes, the number of \<open>True\<close> outcomes as
  successes and the number of \<open>False\<close> outcomes as failures: a task that is answered
  negatively is one of those counted as failures, and not one of the successes.
\<close>

theorem negative_confirmation_aborts_task:
  assumes "ask_confirmation a"
    and "tasks = (if retry_failed a then get_failed_tasks else get_tasks) (fs w0)"
  shows "(stdin w = answer # rest \<and> (answer = ''N'' \<or> answer = ''n'') \<longrightarrow>
            run_individual_task a client (task_id, rd, done_callback, error_callback) backup_manager w
              = (w\<lparr>stdin := rest\<rparr>, Inr (task_id, None, False))
            \<and> dispatch_task a client backup_manager (task_id, rd, done_callback, error_callback) w
              = (w\<lparr>stdin := rest\<rparr>, Inr False))
       \<and> (dispatch_work a client backup_manager w0 = (w', Inr (n, s, f))
            \<and> i < length tasks
            \<and> stdin (world_before (dispatch_task a client backup_manager) tasks w0 i) = answer' # rest'
            \<and> (answer' = ''N'' \<or> answer' = ''n'')
          \<longrightarrow> (\<exists>proc. thread_map (dispatch_task a client backup_manager) tasks w0 = (w', Inr proc)
                \<and> length proc = length tasks
                \<and> dispatch_task a client backup_manager (tasks ! i)
                     (world_before (dispatch_task a client backup_manager) tasks w0 i)
                    = (world_before (dispatch_task a client backup_manager) tasks w0 (Suc i),
                       Inr (proc ! i))
                \<and> world_before (dispatch_task a client backup_manager) tasks w0 (Suc i)
                    = (world_before (dispatch_task a client backup_manager) tasks w0 i)
                        \<lparr>stdin := rest'\<rparr>
                \<and> \<not> proc ! i
                \<and> n = length proc
                \<and> s = card {j. j < length proc \<and> proc ! j}
                \<and> f = card {j. j < length proc \<and> \<not> proc ! j}
                \<and> i \<in> {j. j < length proc \<and> \<not> proc ! j}
                \<and> i \<notin> {j. j < length proc \<and> proc ! j}))"
proof (intro conjI impI)
  assume h: "stdin w = answer # rest \<and> (answer = ''N'' \<or> answer = ''n'')"
  then show "run_individual_task a client (task_id, rd, done_callback, error_callback) backup_manager w
              = (w\<lparr>stdin := rest\<rparr>, Inr (task_id, None, False))"
    using run_individual_task_negative [OF assms(1)] by blast
  from h show "dispatch_task a client backup_manager (task_id, rd, done_callback, error_callback) w
              = (w\<lparr>stdin := rest\<rparr>, Inr False)"
    using dispatch_task_negative [OF assms(1)] by blast
next
  let ?fn = "dispatch_task a client backup_manager"
  let ?before = "world_before ?fn tasks w0"
  assume h: "dispatch_work a client backup_manager w0 = (w', Inr (n, s, f))
            \<and> i < length tasks
            \<and> stdin (?before i) = answer' # rest'
            \<and> (answer' = ''N'' \<or> answer' = ''n'')"
  then obtain proc where p: "thread_map ?fn tasks w0 = (w', Inr proc)"
    and c: "n = length proc" "s = length (filter (\<lambda>x. x) proc)"
      "f = length (filter (\<lambda>x. \<not> x) proc)"
    unfolding assms(2)
    by (auto simp: dispatch_work_def Let_def split: prod.splits sum.splits)
  have l: "length proc = length tasks"
    by (rule thread_map_length [OF p])
  from h have i: "i < length tasks" by simp
  have st: "?fn (tasks ! i) (?before i) = (?before (Suc i), Inr (proc ! i))"
    by (rule thread_map_step [OF p i])
  obtain task_id rd done_callback error_callback
    where t: "tasks ! i = (task_id, rd, done_callback, error_callback)"
    by (cases "tasks ! i") auto
  from h have "?fn (tasks ! i) (?before i) = ((?before i)\<lparr>stdin := rest'\<rparr>, Inr False)"
    unfolding t using dispatch_task_negative [OF assms(1)] by blast
  with st have o: "?before (Suc i) = (?before i)\<lparr>stdin := rest'\<rparr>" "\<not> proc ! i"
    by simp_all
  have cs: "s = card {j. j < length proc \<and> proc ! j}"
    "f = card {j. j < length proc \<and> \<not> proc ! j}"
    using c by (simp_all add: length_filter_conv_card)
  from p l st o c(1) cs i show "\<exists>proc. thread_map ?fn tasks w0 = (w', Inr proc)
                \<and> length proc = length tasks
                \<and> ?fn (tasks ! i) (?before i) = (?before (Suc i), Inr (proc ! i))
                \<and> ?before (Suc i) = (?before i)\<lparr>stdin := rest'\<rparr>
                \<and> \<not> proc ! i
                \<and> n = length proc
                \<and> s = card {j. j < length proc \<and> proc ! j}
                \<and> f = card {j. j < length proc \<and> \<not> proc ! j}
                \<and> i \<in> {j. j < length proc \<and> \<not> proc ! j}
                \<and> i \<notin> {j. j < length proc \<and> proc ! j}"
    by auto
qed

lemma two_task_run:
  "dispatch_work confirm_args example_client False two_task_world
     = (two_task_world_after, Inr (2, 1, 1))"
  by (simp add: dispatch_work_def Let_def confirm_args_def two_task_world_def
        two_task_workspace_def get_tasks_def os_listdir_def dispatch_task_def
        run_individual_task_def try_block_def confirmation_def get_user_confirmation_def
        mutate_task_def reader_def os_path_exists_def apply_restrictions_def example_client_def
        example_row_def move_to_done_def shutil_move_def two_task_world_after_def)

lemma two_task_before_second:
  "stdin (world_before (dispatch_task confirm_args example_client False)
            (get_tasks (fs two_task_world)) two_task_world 1) = ''n'' # []"
  by (simp add: world_before_def confirm_args_def two_task_world_def
        two_task_workspace_def get_tasks_def os_listdir_def dispatch_task_def
        run_individual_task_def try_block_def confirmation_def get_user_confirmation_def
        mutate_task_def reader_def os_path_exists_def apply_restrictions_def example_client_def
        example_row_def move_to_done_def shutil_move_def)

theorem negative_confirmation_aborts_task_witness:
  "ask_confirmation confirm_args
   \<and> get_tasks (fs two_task_world)
       = (if retry_failed confirm_args then get_failed_tasks else get_tasks) (fs two_task_world)
   \<and> stdin (example_world [''n'']) = ''n'' # []
   \<and> run_individual_task confirm_args example_client
        (''d-r-npm--p'', reader, move_to_done, move_to_error) True (example_world [''n''])
       = (example_world [], Inr (''d-r-npm--p'', None, False))
   \<and> dispatch_work confirm_args example_client False two_task_world
       = (two_task_world_after, Inr (2, 1, 1))
   \<and> (1::nat) < length (get_tasks (fs two_task_world))
   \<and> stdin (world_before (dispatch_task confirm_args example_client False)
               (get_tasks (fs two_task_world)) two_task_world 1) = ''n'' # []
   \<and> (\<exists>proc. thread_map (dispatch_task confirm_args example_client False)
                 (get_tasks (fs two_task_world)) two_task_world = (two_task_world_after, Inr proc)
          \<and> \<not> proc ! 1
          \<and> (2::nat) = length proc
          \<and> (1::nat) = card {j. j < length proc \<and> proc ! j}
          \<and> (1::nat) = card {j. j < length proc \<and> \<not> proc ! j}
          \<and> 1 \<in> {j. j < length proc \<and> \<not> proc ! j})"
proof -
  have a: "ask_confirmation confirm_args"
    by (simp add: confirm_args_def)
  have g: "get_tasks (fs two_task_world)
       = (if retry_failed confirm_args then get_failed_tasks else get_tasks) (fs two_task_world)"
    by (simp add: confirm_args_def)
  have s: "stdin (example_world [''n'']) = ''n'' # []"
    by (simp add: example_world_def)
  have u: "(example_world [''n''])\<lparr>stdin := []\<rparr> = example_world []"
    by (simp add: example_world_def)
  have l: "(1::nat) < length (get_tasks (fs two_task_world))"
    by (simp add: get_tasks_def two_task_world_def two_task_workspace_def os_listdir_def)
  note t = negative_confirmation_aborts_task [OF a g, where w = "example_world [''n'']"
      and answer = "''n''" and rest = "[]" and task_id = "''d-r-npm--p''" and rd = reader
      and done_callback = move_to_done and error_callback = move_to_error
      and client = example_client and backup_manager = True]
  from t s u
  have 1: "run_individual_task confirm_args example_client
        (''d-r-npm--p'', reader, move_to_done, move_to_error) True (example_world [''n''])
       = (example_world [], Inr (''d-r-npm--p'', None, False))"
    by simp
  from negative_confirmation_aborts_task [OF a g, where client = example_client
      and backup_manager = False and w' = two_task_world_after and n = 2 and s = 1 and f = 1
      and i = 1 and answer' = "''n''" and rest' = "[]"]
    two_task_run l two_task_before_second
  have 2: "\<exists>proc. thread_map (dispatch_task confirm_args example_client False)
                 (get_tasks (fs two_task_world)) two_task_world = (two_task_world_after, Inr proc)
          \<and> \<not> proc ! 1
          \<and> (2::nat) = length proc
          \<and> (1::nat) = card {j. j < length proc \<and> proc ! j}
          \<and> (1::nat) = card {j. j < length proc \<and> \<not> proc ! j}
          \<and> 1 \<in> {j. j < length proc \<and> \<not> proc ! j}"
    by blast
  show ?thesis
    using a g s 1 two_task_run l two_task_before_second 2 by blast
qed

text \<open>
  The claim as stated fails: in this run of one task, answered \<open>n\<close>, the summary is
  \<open>Processed 1 tasks (0 successes, 1 failures)\<close>, and the task file is still in \<open>todo\<close>.
\<close>

theorem negative_confirmation_counted_as_failure:
  "dispatch_work confirm_args example_client True (example_world [''n''])
     = (example_world [], Inr (1, 0, 1))
   \<and> fs (example_world []) = example_workspace"
  by (simp add: dispatch_work_def Let_def confirm_args_def example_world_def get_tasks_def
        os_listdir_def example_workspace_def dispatch_task_def run_individual_task_def
        try_block_def confirmation_def get_user_confirmation_def)

text \<open>
  Claim C10. With interactive confirmation, an input other than \<open>Y\<close>, \<open>y\<close>, \<open>N\<close>, \<open>n\<close> makes
  \<open>get_user_confirmation\<close> raise; \<open>run_individual_task\<close> catches the exception and calls the
  error callback, whatever the callbacks are. With the callbacks of the workspace, a task
  whose file is in \<open>todo\<close> and not in \<open>error\<close> has it moved to \<open>error\<close>. The answers \<open>N\<close> and
  \<open>n\<close> instead leave the folders as they are.
\<close>

theorem invalid_confirmation_marks_error:
  assumes "ask_confirmation a"
    and "user_choice \<notin> set [''Y'', ''y'', ''N'', ''n'']"
    and "stdin w = user_choice # rest"
  shows "get_user_confirmation (stdin w)
           = (rest, Inl (Exception ('' '' @ user_choice @ '' is not a valid input.'')))
       \<and> run_individual_task a client (task_id, rd, done_callback, error_callback) backup_manager w
           = (case error_callback (fs w) task_id of
                Inl e \<Rightarrow> (w\<lparr>stdin := rest\<rparr>, Inl e)
              | Inr fs' \<Rightarrow> (w\<lparr>stdin := rest, fs := fs'\<rparr>, Inr (task_id, None, False)))
       \<and> (present (fs w) TODO task_id \<and> \<not> present (fs w) ERROR task_id \<longrightarrow>
            (\<exists>fs'. run_individual_task a client (task_id, reader, move_to_done, move_to_error)
                      backup_manager w
                    = (w\<lparr>stdin := rest, fs := fs'\<rparr>, Inr (task_id, None, False))
                  \<and> move_to_error (fs w) task_id = Inr fs'
                  \<and> present fs' ERROR task_id \<and> \<not> present fs' TODO task_id
                  \<and> map_of (error_folder fs') task_id = map_of (todo_folder (fs w)) task_id))
       \<and> run_individual_task a client (task_id, rd, done_callback, error_callback) backup_manager
            (w\<lparr>stdin := ''N'' # rest\<rparr>)
           = (w\<lparr>stdin := rest\<rparr>, Inr (task_id, None, False))
       \<and> run_individual_task a client (task_id, rd, done_callback, error_callback) backup_manager
            (w\<lparr>stdin := ''n'' # rest\<rparr>)
           = (w\<lparr>stdin := rest\<rparr>, Inr (task_id, None, False))"
proof (intro conjI impI)
  show "get_user_confirmation (stdin w)
           = (rest, Inl (Exception ('' '' @ user_choice @ '' is not a valid input.'')))"
    using assms(2,3) by (simp add: get_user_confirmation_def)
  show "run_individual_task a client (task_id, rd, done_callback, error_callback) backup_manager w
           = (case error_callback (fs w) task_id of
                Inl e \<Rightarrow> (w\<lparr>stdin := rest\<rparr>, Inl e)
              | Inr fs' \<Rightarrow> (w\<lparr>stdin := rest, fs := fs'\<rparr>, Inr (task_id, None, False)))"
    by (rule run_individual_task_invalid [OF assms(1,3,2)])
  show "run_individual_task a client (task_id, rd, done_callback, error_callback) backup_manager
            (w\<lparr>stdin := ''N'' # rest\<rparr>)
           = (w\<lparr>stdin := rest\<rparr>, Inr (task_id, None, False))"
    using run_individual_task_negative [OF assms(1), of "w\<lparr>stdin := ''N'' # rest\<rparr>" "''N''" rest]
    by simp
  show "run_individual_task a client (task_id, rd, done_callback, error_callback) backup_manager
            (w\<lparr>stdin := ''n'' # rest\<rparr>)
           = (w\<lparr>stdin := rest\<rparr>, Inr (task_id, None, False))"
    using run_individual_task_negative [OF assms(1), of "w\<lparr>stdin := ''n'' # rest\<rparr>" "''n''" rest]
    by simp
next
  assume p: "present (fs w) TODO task_id \<and> \<not> present (fs w) ERROR task_id"
  then obtain c where c: "map_of (get_folder (fs w) TODO) task_id = Some c"
    by (auto simp: present_def os_path_exists_def)
  from shutil_move_ok [OF c, of ERROR] p
  obtain fs' where m: "shutil_move (fs w) TODO task_id ERROR = Inr fs'"
    "map_of (get_folder fs' ERROR) task_id = Some c" "\<not> present fs' TODO task_id"
    by auto
  have e: "move_to_error (fs w) task_id = Inr fs'"
    using m(1) p by (simp add: move_to_error_def present_def)
  have "run_individual_task a client (task_id, reader, move_to_done, move_to_error) backup_manager w
          = (w\<lparr>stdin := rest, fs := fs'\<rparr>, Inr (task_id, None, False))"
    using run_individual_task_invalid [OF assms(1,3,2), of client task_id reader move_to_done
        move_to_error backup_manager] e
    by simp
  moreover have "present fs' ERROR task_id"
    using m(2) by (simp add: present_def os_path_exists_def)
  moreover have "map_of (error_folder fs') task_id = map_of (todo_folder (fs w)) task_id"
    using m(2) c by simp
  ultimately show "\<exists>fs'. run_individual_task a client (task_id, reader, move_to_done, move_to_error)
                      backup_manager w
                    = (w\<lparr>stdin := rest, fs := fs'\<rparr>, Inr (task_id, None, False))
                  \<and> move_to_error (fs w) task_id = Inr fs'
                  \<and> present fs' ERROR task_id \<and> \<not> present fs' TODO task_id
                  \<and> map_of (error_folder fs') task_id = map_of (todo_folder (fs w)) task_id"
    using e m(3) by blast
qed

theorem invalid_confirmation_marks_error_witness:
  "ask_confirmation confirm_args
   \<and> ''maybe'' \<notin> set [''Y'', ''y'', ''N'', ''n'']
   \<and> stdin (example_world [''maybe'']) = ''maybe'' # []
   \<and> present (fs (example_world [''maybe''])) TODO ''d-r-npm--p''
   \<and> \<not> present (fs (example_world [''maybe''])) ERROR ''d-r-npm--p''
   \<and> get_user_confirmation (stdin (example_world [''maybe'']))
       = ([], Inl (Exception '' maybe is not a valid input.''))
   \<and> (\<exists>fs'. run_individual_task confirm_args example_client
                (''d-r-npm--p'', reader, move_to_done, move_to_error) True (example_world [''maybe''])
              = ((example_world [''maybe''])\<lparr>stdin := [], fs := fs'\<rparr>, Inr (''d-r-npm--p'', None, False))
            \<and> present fs' ERROR ''d-r-npm--p'' \<and> \<not> present fs' TODO ''d-r-npm--p'')"
proof -
  have a: "ask_confirmation confirm_args"
    by (simp add: confirm_args_def)
  have i: "''maybe'' \<notin> set [''Y'', ''y'', ''N'', ''n'']"
    by simp
  have s: "stdin (example_world [''maybe'']) = ''maybe'' # []"
    by (simp add: example_world_def)
  have p: "present (fs (example_world [''maybe''])) TODO ''d-r-npm--p''"
    "\<not> present (fs (example_world [''maybe''])) ERROR ''d-r-npm--p''"
    by (simp_all add: example_world_def example_workspace_def present_def os_path_exists_def)
  note t = invalid_confirmation_marks_error [OF a i s, where client = example_client
      and task_id = "''d-r-npm--p''" and rd = reader and done_callback = move_to_done
      and error_callback = move_to_error and backup_manager = True]
  from t have 1: "get_user_confirmation (stdin (example_world [''maybe'']))
       = ([], Inl (Exception '' maybe is not a valid input.''))"
    by simp
  from t p have 2: "\<exists>fs'. run_individual_task confirm_args example_client
                (''d-r-npm--p'', reader, move_to_done, move_to_error) True (example_world [''maybe''])
              = ((example_world [''maybe''])\<lparr>stdin := [], fs := fs'\<rparr>, Inr (''d-r-npm--p'', None, False))
            \<and> present fs' ERROR ''d-r-npm--p'' \<and> \<not> present fs' TODO ''d-r-npm--p''"
    by blast
  show ?thesis using a i s p 1 2 by blast
qed

section \<open>The dispatcher: dry run\<close>

text \<open>
  Claim C8, as the code has it. In a dry run \<open>apply_restrictions\<close> is never called, for
  any list of tasks and whatever their outcomes. A task of the workspace that is
  reported as a success (no exception, and no negative confirmation) has its file in
  \<open>done\<close>, and in no other folder when it was in exactly one before; its result is
  \<open>None\<close>; and with a backup manager, the restrictions were fetched with
  \<open>get_restrictions\<close> before anything else was called, and they were put on the backup
  queue with the row of the task.
\<close>

theorem dry_run_never_mutates:
  assumes "dry_run a"
  shows "filter is_mutation
           (calls (fst (thread_map (dispatch_task a client backup_manager) tasks w0)))
           = filter is_mutation (calls w0)
       \<and> (run_individual_task a client (task_id, reader, move_to_done, move_to_error)
             backup_manager w = (w', Inr (t', res, True))
          \<longrightarrow> present (fs w') DONE task_id
            \<and> (in_exactly_one (fs w) task_id \<longrightarrow>
                 \<not> present (fs w') TODO task_id \<and> \<not> present (fs w') ERROR task_id)
            \<and> res = None
            \<and> (backup_manager \<longrightarrow>
                 (\<exists>pkg oc. reader (fs w) task_id = Inr pkg
                    \<and> get_restrictions client (calls w) pkg = (calls w', Inr oc)
                    \<and> task_queue (backup w') = task_queue (backup w) @ [(pkg, oc)])))"
proof (intro conjI impI)
  show "filter is_mutation
           (calls (fst (thread_map (dispatch_task a client backup_manager) tasks w0)))
           = filter is_mutation (calls w0)"
    by (rule thread_map_dry_run [OF assms])
next
  assume r: "run_individual_task a client (task_id, reader, move_to_done, move_to_error)
             backup_manager w = (w', Inr (t', res, True))"
  from run_individual_task_success [OF r]
  obtain w1 where w1: "try_block a client backup_manager task_id reader w = (w1, Inr (EndOfTry res))"
    "move_to_done (fs w) task_id = Inr (fs w')" "calls w' = calls w1" "backup w' = backup w1"
    by auto
  show "present (fs w') DONE task_id"
    by (rule move_to_done_present(1) [OF w1(2)])
  show "res = None"
    by (rule try_block_end_dry_run [OF assms w1(1)])
  {
    assume "in_exactly_one (fs w) task_id"
    then show "\<not> present (fs w') TODO task_id" "\<not> present (fs w') ERROR task_id"
      using move_to_done_present(2) [OF w1(2)] by auto
  }
  {
    assume "backup_manager"
    with w1(1) have "try_block a client True task_id reader w = (w1, Inr (EndOfTry res))"
      by simp
    from try_block_end_backup [OF assms this] w1(3,4)
    show "\<exists>pkg oc. reader (fs w) task_id = Inr pkg
            \<and> get_restrictions client (calls w) pkg = (calls w', Inr oc)
            \<and> task_queue (backup w') = task_queue (backup w) @ [(pkg, oc)]"
      by (auto simp: do_backup_def)
  }
qed

lemma example_dry_run:
  "run_individual_task dry_run_args example_client
     (''d-r-npm--p'', reader, move_to_done, move_to_error) True (example_world [])
     = (example_world_after_dry_run, Inr (''d-r-npm--p'', None, True))"
  by (simp add: run_individual_task_def try_block_def confirmation_def dry_run_args_def
        backup_task_def get_restrictions_def example_client_def example_world_def
        example_workspace_def example_row_def reader_def os_path_exists_def Let_def
        do_backup_def init_as_write_def move_to_done_def shutil_move_def
        example_world_after_dry_run_def  example_restrictions_def)

theorem dry_run_never_mutates_witness:
  "dry_run dry_run_args
   \<and> run_individual_task dry_run_args example_client
        (''d-r-npm--p'', reader, move_to_done, move_to_error) True (example_world [])
       = (example_world_after_dry_run, Inr (''d-r-npm--p'', None, True))
   \<and> in_exactly_one (fs (example_world [])) ''d-r-npm--p''
   \<and> filter is_mutation
        (calls (fst (thread_map (dispatch_task dry_run_args example_client True) [example_task]
                       (example_world []))))
       = filter is_mutation (calls (example_world []))
   \<and> present (fs example_world_after_dry_run) DONE ''d-r-npm--p''
   \<and> \<not> present (fs example_world_after_dry_run) TODO ''d-r-npm--p''
   \<and> \<not> present (fs example_world_after_dry_run) ERROR ''d-r-npm--p''
   \<and> (\<exists>pkg oc. reader (fs (example_world [])) ''d-r-npm--p'' = Inr pkg
          \<and> get_restrictions example_client (calls (example_world [])) pkg
               = (calls example_world_after_dry_run, Inr oc)
          \<and> task_queue (backup example_world_after_dry_run)
               = task_queue (backup (example_world [])) @ [(pkg, oc)])"
proof -
  have d: "dry_run dry_run_args"
    by (simp add: dry_run_args_def)
  have e: "in_exactly_one (fs (example_world [])) ''d-r-npm--p''"
    by (simp add: example_world_def example_workspace_def in_exactly_one_def present_def
          os_path_exists_def)
  note t = dry_run_never_mutates [OF d, where client = example_client and backup_manager = True
      and tasks = "[example_task]" and ?w0.0 = "example_world []" and w = "example_world []"
      and task_id = "''d-r-npm--p''" and w' = example_world_after_dry_run
      and t' = "''d-r-npm--p''" and res = None]
  from t have 1: "filter is_mutation
        (calls (fst (thread_map (dispatch_task dry_run_args example_client True) [example_task]
                       (example_world []))))
       = filter is_mutation (calls (example_world []))"
    by blast
  from t example_dry_run e
  have 2: "present (fs example_world_after_dry_run) DONE ''d-r-npm--p''"
    "\<not> present (fs example_world_after_dry_run) TODO ''d-r-npm--p''"
    "\<not> present (fs example_world_after_dry_run) ERROR ''d-r-npm--p''"
    "\<exists>pkg oc. reader (fs (example_world [])) ''d-r-npm--p'' = Inr pkg
          \<and> get_restrictions example_client (calls (example_world [])) pkg
               = (calls example_world_after_dry_run, Inr oc)
          \<and> task_queue (backup example_world_after_dry_run)
               = task_queue (backup (example_world [])) @ [(pkg, oc)]"
    by blast+
  show ?thesis using d example_dry_run e 1 2 by blast
qed

text \<open>
  The claim as stated fails when the run also asks for confirmation and the answer is
  negative: the task is processed without an exception, and it is not in \<open>done\<close> but still
  in \<open>todo\<close>; with a backup manager, nothing was fetched and nothing was recorded.
\<close>

theorem dry_run_negative_confirmation_not_done:
  "dry_run dry_run_confirm_args
   \<and> run_individual_task dry_run_confirm_args example_client
        (''d-r-npm--p'', reader, move_to_done, move_to_error) True (example_world [''n''])
       = (example_world [], Inr (''d-r-npm--p'', None, False))
   \<and> \<not> present (fs (example_world [])) DONE ''d-r-npm--p''
   \<and> present (fs (example_world [])) TODO ''d-r-npm--p''
   \<and> task_queue (backup (example_world [])) = []
   \<and> calls (example_world []) = []"
  by (simp add: dry_run_confirm_args_def run_individual_task_def try_block_def confirmation_def
        get_user_confirmation_def example_world_def example_workspace_def present_def
        os_path_exists_def init_as_write_def)

section \<open>The backup file\<close>

lemma run_schedule_in_loop:
  "writer_thread bm = InLoop \<Longrightarrow>
     writer_thread (run_schedule bm evs) = InLoop
     \<and> file_content (run_schedule bm evs)
           @ map (\<lambda>task. DataLine (backup_line task)) (task_queue (run_schedule bm evs))
         = file_content bm
           @ map (\<lambda>task. DataLine (backup_line task)) (task_queue bm @ recorded evs)"
proof (induction evs arbitrary: bm)
  case Nil
  then show ?case by simp
next
  case (Cons ev evs)
  show ?case
  proof (cases ev)
    case (Record pkg oc)
    have "writer_thread (do_backup bm pkg oc) = InLoop"
      using Cons.prems by (simp add: do_backup_def)
    from Cons.IH [OF this] show ?thesis
      by (simp add: Record do_backup_def file_content_def)
  next
    case WriterStep
    have l: "writer_thread (writer_thread_step bm) = InLoop"
      using Cons.prems by (simp add: writer_thread_step_def split: list.splits)
    have s: "file_content (writer_thread_step bm)
               @ map (\<lambda>task. DataLine (backup_line task)) (task_queue (writer_thread_step bm))
             = file_content bm @ map (\<lambda>task. DataLine (backup_line task)) (task_queue bm)"
      using Cons.prems by (simp add: writer_thread_step_def file_content_def split: list.splits)
    from Cons.IH [OF l] s show ?thesis
      by (simp add: WriterStep)
  qed
qed

lemma run_schedule_from_start:
  "writer_thread bm = BeforeHeader \<Longrightarrow> file_content bm = [] \<Longrightarrow>
     (writer_thread (run_schedule bm evs) = BeforeHeader
        \<and> task_queue (run_schedule bm evs) = task_queue bm @ recorded evs)
     \<or> (writer_thread (run_schedule bm evs) = InLoop
        \<and> file_content (run_schedule bm evs)
             @ map (\<lambda>task. DataLine (backup_line task)) (task_queue (run_schedule bm evs))
           = HeaderLine # map (\<lambda>task. DataLine (backup_line task)) (task_queue bm @ recorded evs))"
proof (induction evs arbitrary: bm)
  case Nil
  then show ?case by simp
next
  case (Cons ev evs)
  show ?case
  proof (cases ev)
    case (Record pkg oc)
    have "writer_thread (do_backup bm pkg oc) = BeforeHeader" "file_content (do_backup bm pkg oc) = []"
      using Cons.prems by (simp_all add: do_backup_def file_content_def)
    from Cons.IH [OF this] show ?thesis
      by (simp add: Record do_backup_def)
  next
    case WriterStep
    have l: "writer_thread (writer_thread_step bm) = InLoop"
      using Cons.prems by (simp add: writer_thread_step_def)
    have f: "file_content (writer_thread_step bm) = [HeaderLine]"
      "task_queue (writer_thread_step bm) = task_queue bm"
      using Cons.prems by (simp_all add: writer_thread_step_def file_content_def)
    from run_schedule_in_loop [OF l, of evs] f show ?thesis
      by (simp add: WriterStep)
  qed
qed

text \<open>Only the header can be waiting in the buffer, and only before the first row.\<close>

lemma step_buffer:
  assumes "writer_thread bm = InLoop \<or> file_content bm = []"
    and "target_file_buffer bm = []
         \<or> (target_file_flushed bm = [] \<and> target_file_buffer bm = [HeaderLine])"
  shows "(writer_thread (backup_event bm ev) = InLoop \<or> file_content (backup_event bm ev) = [])
       \<and> (target_file_buffer (backup_event bm ev) = []
          \<or> (target_file_flushed (backup_event bm ev) = []
              \<and> target_file_buffer (backup_event bm ev) = [HeaderLine]))"
proof (cases ev)
  case (Record pkg oc)
  with assms show ?thesis by (simp add: do_backup_def file_content_def)
next
  case WriterStep
  with assms show ?thesis
    by (cases "writer_thread bm"; cases "task_queue bm")
       (auto simp: writer_thread_step_def file_content_def)
qed

lemma run_schedule_buffer:
  "writer_thread bm = InLoop \<or> file_content bm = [] \<Longrightarrow>
   target_file_buffer bm = []
     \<or> (target_file_flushed bm = [] \<and> target_file_buffer bm = [HeaderLine]) \<Longrightarrow>
   target_file_buffer (run_schedule bm evs) = []
     \<or> (target_file_flushed (run_schedule bm evs) = []
         \<and> target_file_buffer (run_schedule bm evs) = [HeaderLine])"
proof (induction evs arbitrary: bm)
  case Nil
  then show ?case by simp
next
  case (Cons ev evs)
  from step_buffer [OF Cons.prems, of ev] Cons.IH [of "backup_event bm ev"]
  show ?case by simp
qed

text \<open>Once a recorded tuple has been consumed, the writer thread is in its loop.\<close>

lemma consumed_in_loop:
  assumes "task_queue (run_schedule init_as_write evs) = []" and "recorded evs \<noteq> []"
  shows "writer_thread (run_schedule init_as_write evs) = InLoop"
  using run_schedule_from_start [of init_as_write evs] assms
  by (auto simp: init_as_write_def file_content_def)

text \<open>
  What one task does to the backup queue and to the call log, with a backup manager, in
  any mode: either nothing is recorded and nothing is mutated, or one tuple is recorded,
  the row of the task with the restrictions that \<open>get_restrictions\<close> returned for it, and
  \<open>apply_restrictions\<close> is called after that, if at all.
\<close>

lemma get_restrictions_log:
  "get_restrictions client log kwargs = (log', r) \<Longrightarrow> log' = log @ [GetRestrictions kwargs]"
  by (auto simp: get_restrictions_def Let_def split: if_splits)

lemma backup_task_not_recorded:
  assumes "backup_task client task_id rd w = (w1, Inl e)"
  shows "backup w1 = backup w \<and> filter is_mutation (calls w1) = filter is_mutation (calls w)
           \<and> fs w1 = fs w"
  using assms unfolding backup_task_def
  by (auto split: sum.splits prod.splits dest!: get_restrictions_log)

lemma mutate_task_log:
  assumes "mutate_task client task_id rd w = (w1, m)" and "rd (fs w) task_id = Inr pkg"
  shows "calls w1 = calls w @ [ApplyRestrictions pkg] \<and> backup w1 = backup w"
  using assms unfolding mutate_task_def
  by (auto simp: apply_restrictions_def Let_def split: prod.splits if_splits)

lemma try_block_backup:
  assumes "try_block a client True task_id rd w = (w1, t)"
  shows "(backup w1 = backup w \<and> filter is_mutation (calls w1) = filter is_mutation (calls w))
       \<or> (\<exists>pkg oc. rd (fs w) task_id = Inr pkg
            \<and> get_restrictions client (calls w) pkg = (calls w @ [GetRestrictions pkg], Inr oc)
            \<and> backup w1 = do_backup (backup w) pkg oc
            \<and> (calls w1 = calls w @ [GetRestrictions pkg]
                \<or> calls w1 = calls w @ [GetRestrictions pkg, ApplyRestrictions pkg]))"
proof -
  obtain w0 c where c: "confirmation a w = (w0, c)"
    by (cases "confirmation a w") auto
  from confirmation_frame [OF c]
  have f0: "fs w0 = fs w" "calls w0 = calls w" "backup w0 = backup w" by auto
  show ?thesis
  proof (cases "c = Inr True")
    case False
    with assms c have "w1 = w0"
      by (cases c) (auto simp: try_block_def)
    with f0 show ?thesis by simp
  next
    case True
    obtain w2 b where b: "backup_task client task_id rd w0 = (w2, b)"
      by (cases "backup_task client task_id rd w0") auto
    show ?thesis
    proof (cases b)
      case (Inl e)
      with assms c True b have "w1 = w2"
        by (simp add: try_block_def)
      with backup_task_not_recorded [of client task_id rd w0 w2 e] b Inl f0
      show ?thesis by simp
    next
      case (Inr u)
      from backup_task_recorded [of client task_id rd w0 w2 u] b Inr f0
      obtain pkg oc where r: "rd (fs w) task_id = Inr pkg"
        "get_restrictions client (calls w) pkg = (calls w2, Inr oc)"
        "backup w2 = do_backup (backup w) pkg oc"
        by auto
      from get_restrictions_log [OF r(2)]
      have l: "calls w2 = calls w @ [GetRestrictions pkg]" .
      from backup_task_frame [of client task_id rd w0 w2 b] b f0
      have f2: "fs w2 = fs w" by simp
      show ?thesis
      proof (cases "dry_run a")
        case True
        with assms c \<open>c = Inr True\<close> b Inr have "w1 = w2"
          by (simp add: try_block_def)
        with r l show ?thesis by auto
      next
        case False
        obtain w3 m where m: "mutate_task client task_id rd w2 = (w3, m)"
          by (cases "mutate_task client task_id rd w2") auto
        with assms c \<open>c = Inr True\<close> b Inr False have "w1 = w3"
          by (auto simp: try_block_def split: sum.splits)
        with mutate_task_log [OF m] r f2 l show ?thesis by auto
      qed
    qed
  qed
qed

lemma run_individual_task_frame:
  assumes "run_individual_task a client (task_id, rd, done_callback, error_callback)
             backup_manager w = (w', r)"
  shows "\<exists>w1 t. try_block a client backup_manager task_id rd w = (w1, t)
           \<and> calls w' = calls w1 \<and> backup w' = backup w1"
proof -
  obtain w1 t where b: "try_block a client backup_manager task_id rd w = (w1, t)"
    by (cases "try_block a client backup_manager task_id rd w") auto
  with assms have "calls w' = calls w1 \<and> backup w' = backup w1"
    by (auto simp: run_individual_task_def split: sum.splits try_end.splits)
  with b show ?thesis by blast
qed

lemma example_run:
  "run_individual_task plain_args example_client
     (''d-r-npm--p'', reader, move_to_done, move_to_error) True (example_world [])
     = (example_world_after_run, Inr (''d-r-npm--p'', Some ''ok'', True))"
  by (simp add: run_individual_task_def try_block_def confirmation_def plain_args_def
        backup_task_def mutate_task_def get_restrictions_def apply_restrictions_def
        example_client_def example_world_def example_workspace_def example_row_def reader_def
        os_path_exists_def Let_def do_backup_def init_as_write_def move_to_done_def
        shutil_move_def example_world_after_run_def example_restrictions_def)

text \<open>
  Claim C6. Take any schedule of \<open>do_backup\<close> calls and steps of the writer thread, after
  which the writer thread has started and has emptied the queue. Then the backup file is
  the header line followed by one line for each recorded tuple, in the order of the
  calls; the line of a tuple has the seven fields of \<open>CSV_HEADER\<close>: the domain,
  repository, format, namespace and package of the row recorded, then the upstream and
  the publish restriction recorded with it. When at least one tuple was recorded, all of
  the file is flushed; each turn of the writer's loop that writes a row ends with an empty
  buffer; and a \<open>do_backup\<close> call leaves the file as it is: only the writer thread writes
  to it. The restrictions recorded are those from before the mutation: a task either
  records nothing and mutates nothing, or records its row with what \<open>get_restrictions\<close>
  returned on the call log as it was when the task started, and calls
  \<open>apply_restrictions\<close> only after that.
\<close>

theorem backup_file_header_then_rows:
  assumes "task_queue (run_schedule init_as_write evs) = []"
    and "writer_thread (run_schedule init_as_write evs) = InLoop"
  shows "file_content (run_schedule init_as_write evs)
           = HeaderLine #
             map (\<lambda>(pkg, oc).
                    DataLine \<lparr>domain = domain pkg, repository = repository pkg,
                              format = format pkg, namespace = namespace pkg,
                              package = package pkg,
                              upstream = restrictions_upstream oc,
                              publish = restrictions_publish oc\<rparr>)
               (recorded evs)
       \<and> length (file_content (run_schedule init_as_write evs)) = 1 + length (recorded evs)
       \<and> (recorded evs \<noteq> [] \<longrightarrow>
            target_file_buffer (run_schedule init_as_write evs) = []
            \<and> target_file_flushed (run_schedule init_as_write evs)
                = file_content (run_schedule init_as_write evs))
       \<and> (writer_thread bm = InLoop \<and> task_queue bm \<noteq> [] \<longrightarrow>
            target_file_buffer (writer_thread_step bm) = [])
       \<and> file_content (backup_event bm (Record pkg origin_configuration)) = file_content bm
       \<and> (run_individual_task a client (task_id, rd, done_callback, error_callback) True w
             = (w', r)
          \<longrightarrow> (task_queue (backup w') = task_queue (backup w)
                \<and> filter is_mutation (calls w') = filter is_mutation (calls w))
              \<or> (\<exists>row oc. rd (fs w) task_id = Inr row
                   \<and> get_restrictions client (calls w) row
                       = (calls w @ [GetRestrictions row], Inr oc)
                   \<and> task_queue (backup w') = task_queue (backup w) @ [(row, oc)]
                   \<and> (calls w' = calls w @ [GetRestrictions row]
                       \<or> calls w' = calls w @ [GetRestrictions row, ApplyRestrictions row])))"
proof -
  let ?end = "run_schedule init_as_write evs"
  have line: "(\<lambda>task. DataLine (backup_line task))
                = (\<lambda>(pkg, oc).
                    DataLine \<lparr>domain = domain pkg, repository = repository pkg,
                              format = format pkg, namespace = namespace pkg,
                              package = package pkg,
                              upstream = restrictions_upstream oc,
                              publish = restrictions_publish oc\<rparr>)"
    by (auto simp: backup_line_def fun_eq_iff)
  have c: "file_content ?end = HeaderLine # map (\<lambda>task. DataLine (backup_line task)) (recorded evs)"
    using run_schedule_from_start [of init_as_write evs] assms
    by (auto simp: init_as_write_def file_content_def)
  have b: "target_file_buffer ?end = []
             \<or> (target_file_flushed ?end = [] \<and> target_file_buffer ?end = [HeaderLine])"
    by (rule run_schedule_buffer) (simp_all add: init_as_write_def file_content_def)
  have f: "recorded evs \<noteq> [] \<longrightarrow> target_file_buffer ?end = []"
  proof
    assume "recorded evs \<noteq> []"
    then have "length (file_content ?end) \<ge> 2"
      unfolding c by (cases "recorded evs") auto
    with b show "target_file_buffer ?end = []"
      by (auto simp: file_content_def)
  qed
  have s: "writer_thread bm = InLoop \<and> task_queue bm \<noteq> [] \<longrightarrow>
            target_file_buffer (writer_thread_step bm) = []"
    by (auto simp: writer_thread_step_def split: list.splits)
  have p: "file_content (backup_event bm (Record pkg origin_configuration)) = file_content bm"
    by (simp add: do_backup_def file_content_def)
  have t: "run_individual_task a client (task_id, rd, done_callback, error_callback) True w
             = (w', r)
          \<longrightarrow> (task_queue (backup w') = task_queue (backup w)
                \<and> filter is_mutation (calls w') = filter is_mutation (calls w))
              \<or> (\<exists>row oc. rd (fs w) task_id = Inr row
                   \<and> get_restrictions client (calls w) row
                       = (calls w @ [GetRestrictions row], Inr oc)
                   \<and> task_queue (backup w') = task_queue (backup w) @ [(row, oc)]
                   \<and> (calls w' = calls w @ [GetRestrictions row]
                       \<or> calls w' = calls w @ [GetRestrictions row, ApplyRestrictions row]))"
  proof
    assume "run_individual_task a client (task_id, rd, done_callback, error_callback) True w
             = (w', r)"
    from run_individual_task_frame [OF this]
    obtain w1 t where w1: "try_block a client True task_id rd w = (w1, t)"
      "calls w' = calls w1" "backup w' = backup w1"
      by auto
    from try_block_backup [OF w1(1)] w1(2,3)
    show "(task_queue (backup w') = task_queue (backup w)
                \<and> filter is_mutation (calls w') = filter is_mutation (calls w))
              \<or> (\<exists>row oc. rd (fs w) task_id = Inr row
                   \<and> get_restrictions client (calls w) row
                       = (calls w @ [GetRestrictions row], Inr oc)
                   \<and> task_queue (backup w') = task_queue (backup w) @ [(row, oc)]
                   \<and> (calls w' = calls w @ [GetRestrictions row]
                       \<or> calls w' = calls w @ [GetRestrictions row, ApplyRestrictions row]))"
      by (auto simp: do_backup_def)
  qed
  have c': "file_content ?end
           = HeaderLine #
             map (\<lambda>(pkg, oc).
                    DataLine \<lparr>domain = domain pkg, repository = repository pkg,
                              format = format pkg, namespace = namespace pkg,
                              package = package pkg,
                              upstream = restrictions_upstream oc,
                              publish = restrictions_publish oc\<rparr>)
               (recorded evs)"
    using c unfolding line .
  have n: "length (file_content ?end) = 1 + length (recorded evs)"
    unfolding c by simp
  have f': "recorded evs \<noteq> [] \<longrightarrow>
            target_file_buffer ?end = [] \<and> target_file_flushed ?end = file_content ?end"
    using f by (simp add: file_content_def)
  from c' n f' s p t show ?thesis by blast
qed

theorem backup_file_header_then_rows_witness:
  "task_queue (run_schedule init_as_write example_schedule) = []
   \<and> writer_thread (run_schedule init_as_write example_schedule) = InLoop
   \<and> recorded example_schedule
       = [(example_row, example_restrictions), (colliding_row_1, example_restrictions)]
   \<and> file_content (run_schedule init_as_write example_schedule)
       = [HeaderLine,
          DataLine \<lparr>domain = ''d'', repository = ''r'', format = ''npm'', namespace = '''',
                    package = ''p'', upstream = ''BLOCK'', publish = ''ALLOW''\<rparr>,
          DataLine \<lparr>domain = ''d'', repository = ''r'', format = ''npm'', namespace = ''a-b'',
                    package = ''c'', upstream = ''BLOCK'', publish = ''ALLOW''\<rparr>]
   \<and> target_file_buffer (run_schedule init_as_write example_schedule) = []
   \<and> run_individual_task plain_args example_client
        (''d-r-npm--p'', reader, move_to_done, move_to_error) True (example_world [])
       = (example_world_after_run, Inr (''d-r-npm--p'', Some ''ok'', True))
   \<and> task_queue (backup example_world_after_run)
       = task_queue (backup (example_world [])) @ [(example_row, example_restrictions)]
   \<and> get_restrictions example_client (calls (example_world [])) example_row
       = (calls (example_world []) @ [GetRestrictions example_row], Inr example_restrictions)
   \<and> calls example_world_after_run
       = calls (example_world []) @ [GetRestrictions example_row, ApplyRestrictions example_row]
   \<and> ((task_queue (backup example_world_after_run) = task_queue (backup (example_world []))
          \<and> filter is_mutation (calls example_world_after_run)
              = filter is_mutation (calls (example_world [])))
        \<or> (\<exists>row oc. reader (fs (example_world [])) ''d-r-npm--p'' = Inr row
              \<and> get_restrictions example_client (calls (example_world [])) row
                  = (calls (example_world []) @ [GetRestrictions row], Inr oc)
              \<and> task_queue (backup example_world_after_run)
                  = task_queue (backup (example_world [])) @ [(row, oc)]
              \<and> (calls example_world_after_run
                    = calls (example_world []) @ [GetRestrictions row]
                  \<or> calls example_world_after_run
                    = calls (example_world []) @ [GetRestrictions row, ApplyRestrictions row])))"
proof -
  have q: "task_queue (run_schedule init_as_write example_schedule) = []"
    by (simp add: example_schedule_def init_as_write_def do_backup_def writer_thread_step_def)
  have l: "writer_thread (run_schedule init_as_write example_schedule) = InLoop"
    by (simp add: example_schedule_def init_as_write_def do_backup_def writer_thread_step_def)
  have r: "recorded example_schedule
       = [(example_row, example_restrictions), (colliding_row_1, example_restrictions)]"
    by (simp add: example_schedule_def)
  note t = backup_file_header_then_rows [OF q l, where a = plain_args and client = example_client
      and task_id = "''d-r-npm--p''" and rd = reader and done_callback = move_to_done
      and error_callback = move_to_error and w = "example_world []"
      and w' = example_world_after_run and r = "Inr (''d-r-npm--p'', Some ''ok'', True)"]
  from t r
  have 1: "file_content (run_schedule init_as_write example_schedule)
       = [HeaderLine,
          DataLine \<lparr>domain = ''d'', repository = ''r'', format = ''npm'', namespace = '''',
                    package = ''p'', upstream = ''BLOCK'', publish = ''ALLOW''\<rparr>,
          DataLine \<lparr>domain = ''d'', repository = ''r'', format = ''npm'', namespace = ''a-b'',
                    package = ''c'', upstream = ''BLOCK'', publish = ''ALLOW''\<rparr>]"
    "target_file_buffer (run_schedule init_as_write example_schedule) = []"
    by (simp_all add: example_row_def colliding_row_1_def example_restrictions_def)
  from t example_run
  have 2: "(task_queue (backup example_world_after_run) = task_queue (backup (example_world []))
          \<and> filter is_mutation (calls example_world_after_run)
              = filter is_mutation (calls (example_world [])))
        \<or> (\<exists>row oc. reader (fs (example_world [])) ''d-r-npm--p'' = Inr row
              \<and> get_restrictions example_client (calls (example_world [])) row
                  = (calls (example_world []) @ [GetRestrictions row], Inr oc)
              \<and> task_queue (backup example_world_after_run)
                  = task_queue (backup (example_world [])) @ [(row, oc)]
              \<and> (calls example_world_after_run
                    = calls (example_world []) @ [GetRestrictions row]
                  \<or> calls example_world_after_run
                    = calls (example_world []) @ [GetRestrictions row, ApplyRestrictions row]))"
    by blast
  have 3: "task_queue (backup example_world_after_run)
       = task_queue (backup (example_world [])) @ [(example_row, example_restrictions)]"
    "calls example_world_after_run
       = calls (example_world []) @ [GetRestrictions example_row, ApplyRestrictions example_row]"
    by (simp_all add: example_world_after_run_def example_world_def init_as_write_def)
  have 4: "get_restrictions example_client (calls (example_world [])) example_row
       = (calls (example_world []) @ [GetRestrictions example_row], Inr example_restrictions)"
    by (simp add: get_restrictions_def example_client_def example_world_def example_row_def
          example_restrictions_def Let_def)
  show ?thesis
    using q l r 1 example_run 2 3 4 by blast
qed

end
